theory Spec2Isabelle
  imports Complex_Main
begin

section \<open>Image validator (src/utils/imageUtils.ts)\<close>

text \<open>
  A browser \<open>File\<close> as the pipeline reads it: its name, its declared MIME type and its
  size in bytes. The fields carry a \<open>file_\<close> prefix because \<open>size\<close> is a HOL constant.
\<close>

record File =
  file_name :: string
  file_type :: string
  file_size :: nat

text \<open>The object \<open>{ isValid: boolean; error?: string }\<close> returned by the validator.\<close>

record validation =
  isValid :: bool
  error :: "string option"

text \<open>\<open>Array.prototype.includes\<close> on an array of strings.\<close>

definition array_includes :: "'a list \<Rightarrow> 'a \<Rightarrow> bool" where
  "array_includes xs v = (v \<in> set xs)"

definition validTypes :: "string list" where
  "validTypes = [''image/jpeg'', ''image/png'', ''image/webp'']"

definition maxSize :: nat where
  "maxSize = 10 * 1024 * 1024"

definition invalid_type_error :: string where
  "invalid_type_error = ''Invalid file type. Please upload JPEG, PNG, or WebP images only.''"

definition too_large_error :: string where
  "too_large_error = ''File size too large. Please upload images smaller than 10MB.''"

definition validateImageFile :: "File \<Rightarrow> validation" where
  "validateImageFile f =
     (if \<not> array_includes validTypes (file_type f) then
        \<lparr>isValid = False, error = Some invalid_type_error\<rparr>
      else if file_size f > maxSize then
        \<lparr>isValid = False, error = Some too_large_error\<rparr>
      else \<lparr>isValid = True, error = None\<rparr>)"


section \<open>Numbers to strings\<close>

text \<open>
  \<open>Number.prototype.toString\<close> on a non-negative integer (\<open>Date.now().toString()\<close>,
  the status in a template literal): its decimal digits.
\<close>

definition digit_char :: "nat \<Rightarrow> char" where
  "digit_char d = ''0123456789'' ! d"

fun decimal :: "nat \<Rightarrow> string" where
  "decimal n = (if n < 10 then [digit_char n] else decimal (n div 10) @ [digit_char (n mod 10)])"

declare decimal.simps [simp del]


section \<open>Double-precision arithmetic\<close>

text \<open>
  JavaScript numbers are IEEE 754 doubles. A double is modelled as the real it denotes;
  the distance of a click from a marker, the size of the compressed image and the
  confidence score are computed as the doubles compute them, since what they are turns
  on the rounding.
  \<open>nearest_double x\<close> is the double nearest to the real \<open>x\<close>, ties to the even
  significand, for magnitudes below \<open>2 ^ 1024\<close>: the spacing of the doubles around \<open>x\<close>
  is \<open>2 ^ (e - 52)\<close> where \<open>e\<close> is the binary exponent of \<open>x\<close>, not below \<open>- 1022\<close>.
  A numeric literal denotes the double nearest to it, and each arithmetic operation
  returns the double nearest to its exact result.
\<close>

definition round_half_even :: "real \<Rightarrow> int" where
  "round_half_even x =
     (let f = \<lfloor>x\<rfloor>; d = x - of_int f
      in if d < 1 / 2 then f else if 1 / 2 < d then f + 1 else if even f then f else f + 1)"

definition double_exponent :: "real \<Rightarrow> int" where
  "double_exponent x = max \<lfloor>log 2 \<bar>x\<bar>\<rfloor> (- 1022)"

definition double_quantum :: "real \<Rightarrow> real" where
  "double_quantum x = 2 powr of_int (double_exponent x - 52)"

definition nearest_double :: "real \<Rightarrow> real" where
  "nearest_double x =
     (if x = 0 then 0 else of_int (round_half_even (x / double_quantum x)) * double_quantum x)"


text \<open>
  \<open>v ** 2\<close> and \<open>Math.sqrt(v)\<close>. The language leaves their precision to the engine;
  they are taken as correctly rounded, like the multiplication and the square root of
  IEEE 754: the double nearest to the exact square, and to the exact root.
\<close>

definition pow2 :: "real \<Rightarrow> real" where
  "pow2 v = nearest_double (v\<^sup>2)"

definition Math_sqrt :: "real \<Rightarrow> real" where
  "Math_sqrt v = nearest_double (sqrt v)"


section \<open>Annotation surface (src/components/AnnotationCanvas.tsx)\<close>

text \<open>
  The marker \<open>Point\<close> of the canvas. Its fields are prefixed, since \<open>x\<close>, \<open>y\<close> and
  \<open>id\<close> would hide variables and a HOL constant. The coordinates are doubles, each
  modelled as the real it denotes.
\<close>

datatype tool = success | failure

record Point =
  point_x :: real
  point_y :: real
  point_type :: tool
  point_id :: string

text \<open>The part of \<open>getBoundingClientRect()\<close> that the click handler reads.\<close>

record DOMRect =
  rect_left :: real
  rect_top :: real

text \<open>
  \<open>Array.prototype.findIndex\<close>: the index of the first element that satisfies the
  predicate, \<open>-1\<close> when there is none.
\<close>

fun findIndex_from :: "('a \<Rightarrow> bool) \<Rightarrow> 'a list \<Rightarrow> nat \<Rightarrow> int" where
  "findIndex_from P [] i = - 1"
| "findIndex_from P (v # vs) i = (if P v then int i else findIndex_from P vs (Suc i))"

definition findIndex :: "('a \<Rightarrow> bool) \<Rightarrow> 'a list \<Rightarrow> int" where
  "findIndex P vs = findIndex_from P vs 0"

text \<open>\<open>Array.prototype.filter\<close> with the two-argument callback \<open>(element, index)\<close>.\<close>

fun filter_index_from :: "('a \<Rightarrow> nat \<Rightarrow> bool) \<Rightarrow> 'a list \<Rightarrow> nat \<Rightarrow> 'a list" where
  "filter_index_from P [] i = []"
| "filter_index_from P (v # vs) i =
     (if P v i then v # filter_index_from P vs (Suc i) else filter_index_from P vs (Suc i))"

definition filter_index :: "('a \<Rightarrow> nat \<Rightarrow> bool) \<Rightarrow> 'a list \<Rightarrow> 'a list" where
  "filter_index P vs = filter_index_from P vs 0"

text \<open>The initial value of the \<open>currentTool\<close> state (\<open>useState('success')\<close>).\<close>

definition initial_currentTool :: tool where
  "initial_currentTool = success"

text \<open>
  \<open>handleCanvasClick\<close>. The handler closes over the rendered \<open>points\<close> and
  \<open>currentTool\<close>, reads the canvas reference (\<open>None\<close> when \<open>canvasRef.current\<close> is
  null) and the mouse event's \<open>clientX\<close>, \<open>clientY\<close>, and hands \<open>setPoints\<close> a
  functional update, which is the value returned here. \<open>now\<close> is the value of
  \<open>Date.now()\<close> at the click. Each subtraction, square, sum and root yields the double
  nearest to its exact result.
\<close>

definition handleCanvasClick ::
  "DOMRect option \<Rightarrow> Point list \<Rightarrow> tool \<Rightarrow> real \<Rightarrow> real \<Rightarrow> nat \<Rightarrow> Point list \<Rightarrow> Point list"
where
  "handleCanvasClick canvas points currentTool clientX clientY now =
     (case canvas of
        None \<Rightarrow> (\<lambda>prev. prev)
      | Some rect \<Rightarrow>
          (let x = nearest_double (clientX - rect_left rect);
               y = nearest_double (clientY - rect_top rect);
               clickedPointIndex =
                 findIndex (\<lambda>point.
                   let distance =
                     Math_sqrt (nearest_double (pow2 (nearest_double (point_x point - x))
                                                + pow2 (nearest_double (point_y point - y))))
                   in distance \<le> 15) points
           in if clickedPointIndex \<noteq> - 1 then
                (\<lambda>prev. filter_index (\<lambda>_ index. int index \<noteq> clickedPointIndex) prev)
              else
                (\<lambda>prev. prev @ [\<lparr>point_x = x, point_y = y, point_type = currentTool,
                                   point_id = decimal now\<rparr>])))"

text \<open>
  One click as a transition of the marker list: the update produced by the handler is
  applied to the list the handler was rendered with.
\<close>

definition click ::
  "DOMRect option \<Rightarrow> tool \<Rightarrow> real \<Rightarrow> real \<Rightarrow> nat \<Rightarrow> Point list \<Rightarrow> Point list"
where
  "click canvas currentTool clientX clientY now points =
     handleCanvasClick canvas points currentTool clientX clientY now points"


section \<open>JavaScript values and exceptions\<close>

text \<open>
  The values that \<open>response.json()\<close> and a \<open>FileReader\<close> hand to the program, with
  \<open>undefined\<close> for an absent property. An object is the list of its own properties, each
  key once. A number is the real it denotes.
\<close>

datatype jsval =
    Undefined
  | Null
  | Bool bool
  | Num real
  | Str string
  | Arr "jsval list"
  | Obj "(string \<times> jsval) list"

text \<open>
  What a \<open>throw\<close> can carry: an \<open>ApiError\<close> (message, code, details; code and details
  are \<open>Undefined\<close> when the constructor is called without them), a \<open>TypeError\<close>, any
  other \<open>Error\<close> (a plain \<open>Error\<close>, a \<open>SyntaxError\<close>), each with its message, or a
  value that is no \<open>Error\<close> at all.
\<close>

datatype exn =
    ApiError string jsval jsval
  | TypeError string
  | OtherError string
  | Thrown jsval

text \<open>Truthiness, as \<open>||\<close>, \<open>&&\<close>, \<open>!\<close> and \<open>if\<close> read it.\<close>

fun truthy :: "jsval \<Rightarrow> bool" where
  "truthy Undefined = False"
| "truthy Null = False"
| "truthy (Bool b) = b"
| "truthy (Num n) = (n \<noteq> 0)"
| "truthy (Str s) = (s \<noteq> [])"
| "truthy (Arr vs) = True"
| "truthy (Obj kvs) = True"

definition js_or :: "jsval \<Rightarrow> jsval \<Rightarrow> jsval" where
  "js_or a b = (if truthy a then a else b)"

text \<open>\<open>a || b\<close> where \<open>a\<close> is an optional string (\<open>string | undefined\<close>).\<close>

definition or_default :: "string option \<Rightarrow> string \<Rightarrow> string" where
  "or_default a b = (case a of None \<Rightarrow> b | Some s \<Rightarrow> if s \<noteq> [] then s else b)"

text \<open>
  The message of the \<open>TypeError\<close> that reading a property of \<open>null\<close> or \<open>undefined\<close>
  throws, in V8's wording (the other engines word it differently; none mentions
  \<open>fetch\<close>).
\<close>

definition cannot_read :: "string \<Rightarrow> string \<Rightarrow> string" where
  "cannot_read base key =
     ''Cannot read properties of '' @ base @ '' (reading '' @ [CHR 0x27] @ key @ [CHR 0x27] @ '')''"

text \<open>
  The property read \<open>v.key\<close> or \<open>v[0]\<close> (key \<open>''0''\<close>), for the keys this program reads:
  \<open>candidates\<close>, \<open>content\<close>, \<open>parts\<close>, \<open>text\<close>, \<open>error\<close>, \<open>message\<close>, \<open>code\<close>,
  \<open>details\<close> and the index \<open>0\<close>; none of them is a property of a built-in prototype.
  Reading from \<open>null\<close> or \<open>undefined\<close> throws; index \<open>0\<close> of a string is its first
  code unit.
\<close>

fun get :: "jsval \<Rightarrow> string \<Rightarrow> exn + jsval" where
  "get Undefined key = Inl (TypeError (cannot_read ''undefined'' key))"
| "get Null key = Inl (TypeError (cannot_read ''null'' key))"
| "get (Obj kvs) key = Inr (case map_of kvs key of Some v \<Rightarrow> v | None \<Rightarrow> Undefined)"
| "get (Arr vs) key =
     Inr (if key = ''0'' then (case vs of [] \<Rightarrow> Undefined | v # _ \<Rightarrow> v) else Undefined)"
| "get (Str s) key =
     Inr (if key = ''0'' then (case s of [] \<Rightarrow> Undefined | c # _ \<Rightarrow> Str [c]) else Undefined)"
| "get (Bool b) key = Inr Undefined"
| "get (Num n) key = Inr Undefined"

text \<open>Optional chaining \<open>v?.key\<close>: \<open>undefined\<close> when \<open>v\<close> is \<open>null\<close> or \<open>undefined\<close>.\<close>

fun opt_get :: "jsval \<Rightarrow> string \<Rightarrow> jsval" where
  "opt_get Undefined key = Undefined"
| "opt_get Null key = Undefined"
| "opt_get v key = (case get v key of Inr r \<Rightarrow> r | Inl e \<Rightarrow> Undefined)"

text \<open>\<open>Array.prototype.join\<close> with the separator \<open>,\<close>, on the converted elements.\<close>

fun join_comma :: "string list \<Rightarrow> string" where
  "join_comma [] = []"
| "join_comma [s] = s"
| "join_comma (s # t # ss) = s @ '','' @ join_comma (t # ss)"

text \<open>
  \<open>ToString\<close>, which the \<open>Error\<close> constructor applies to its message argument. A
  string is itself; a number is formatted by the engine (\<open>num\<close>, taken as given); an
  array joins its converted elements, \<open>null\<close> and \<open>undefined\<close> elements as the empty
  string; an object parsed from JSON is \<open>[object Object]\<close>, unless it has a property
  \<open>toString\<close> of its own: that property is no function, neither \<open>toString\<close> nor
  \<open>valueOf\<close> yields a primitive, and the conversion throws a \<open>TypeError\<close>.
\<close>

fun to_string :: "(real \<Rightarrow> string) \<Rightarrow> jsval \<Rightarrow> exn + string"
  and to_strings :: "(real \<Rightarrow> string) \<Rightarrow> jsval list \<Rightarrow> exn + string list"
where
  "to_string num Undefined = Inr ''undefined''"
| "to_string num Null = Inr ''null''"
| "to_string num (Bool b) = Inr (if b then ''true'' else ''false'')"
| "to_string num (Num n) = Inr (num n)"
| "to_string num (Str s) = Inr s"
| "to_string num (Arr vs) =
     (case to_strings num vs of Inl e \<Rightarrow> Inl e | Inr ss \<Rightarrow> Inr (join_comma ss))"
| "to_string num (Obj kvs) =
     (if map_of kvs ''toString'' \<noteq> None then
        Inl (TypeError ''Cannot convert object to primitive value'')
      else Inr ''[object Object]'')"
| "to_strings num [] = Inr []"
| "to_strings num (v # vs) =
     (case (if v = Undefined \<or> v = Null then Inr [] else to_string num v) of
        Inl e \<Rightarrow> Inl e
      | Inr s \<Rightarrow>
          (case to_strings num vs of Inl e \<Rightarrow> Inl e | Inr ss \<Rightarrow> Inr (s # ss)))"

text \<open>
  \<open>new ApiError(message, code, details)\<close>: \<open>super(message)\<close> converts the message, and
  throws what the conversion throws.
\<close>

definition new_ApiError :: "(real \<Rightarrow> string) \<Rightarrow> jsval \<Rightarrow> jsval \<Rightarrow> jsval \<Rightarrow> exn" where
  "new_ApiError num message code details =
     (case to_string num message of Inl e \<Rightarrow> e | Inr m \<Rightarrow> ApiError m code details)"

text \<open>\<open>String.prototype.includes\<close>: the second string occurs in the first.\<close>

fun str_includes :: "string \<Rightarrow> string \<Rightarrow> bool" where
  "str_includes [] sub = (sub = [])"
| "str_includes (c # cs) sub = (take (length sub) (c # cs) = sub \<or> str_includes cs sub)"


section \<open>Analysis client (src/services/geminiApi.ts)\<close>

definition GEMINI_API_ENDPOINT :: string where
  "GEMINI_API_ENDPOINT =
     ''https://generativelanguage.googleapis.com/v1beta/models/gemini-2.5-flash:generateContent''"

text \<open>
  The default prompt of the client, a template literal of some thirty lines; its opening
  lines stand for it here.
\<close>

definition default_prompt :: string where
  "default_prompt =
     ''Context: Students are drawing on a heatmap based on their team's gameplay where: ''
     @ ''- successful points are drawn using O - unsuccessful points are drawn using X''"

text \<open>
  What \<open>fetch\<close> is called with (the URL with the key, and of the JSON body the prompt,
  the MIME type and the image data; the generation configuration is constant), and what
  it answers: the status and the outcome of \<open>response.json()\<close>, which rejects when the
  body is no JSON.
\<close>

record request =
  req_url :: string
  req_text :: string
  req_mime_type :: string
  req_data :: string

record Response =
  resp_status :: nat
  resp_json :: "exn + jsval"

text \<open>\<open>response.ok\<close>: the status is in the range 200 to 299.\<close>

definition response_ok :: "Response \<Rightarrow> bool" where
  "response_ok response = (200 \<le> resp_status response \<and> resp_status response \<le> 299)"

text \<open>
  Lines 78 to 107: the body of the \<open>try\<close> after \<open>fetch\<close> has answered. \<open>Inl\<close> is a
  throw, \<open>Inr\<close> the returned text.
\<close>

definition handle_response :: "(real \<Rightarrow> string) \<Rightarrow> Response \<Rightarrow> exn + jsval" where
  "handle_response num response =
     (if \<not> response_ok response then
        (let errorData = (case resp_json response of Inl e \<Rightarrow> Obj [] | Inr v \<Rightarrow> v) in
         if resp_status response = 400 then
           Inl (ApiError ''Invalid request. Please check your image format and try again.''
                  (Str ''INVALID_REQUEST'') Undefined)
         else if resp_status response = 401 then
           Inl (ApiError ''Invalid API key. Please check your Gemini API key configuration.''
                  (Str ''INVALID_API_KEY'') Undefined)
         else if resp_status response = 403 then
           Inl (ApiError ''API access forbidden. Please check your API key permissions.''
                  (Str ''FORBIDDEN'') Undefined)
         else if resp_status response = 429 then
           Inl (ApiError ''Rate limit exceeded. Please wait a moment and try again.''
                  (Str ''RATE_LIMIT'') Undefined)
         else
           (case get errorData ''error'' of
              Inl e \<Rightarrow> Inl e
            | Inr err \<Rightarrow>
                Inl (new_ApiError num
                  (js_or (opt_get err ''message'')
                     (Str (''API request failed with status '' @ decimal (resp_status response))))
                  (js_or (opt_get err ''code'') (Str ''API_ERROR''))
                  (opt_get err ''details''))))
      else
        (case resp_json response of
           Inl e \<Rightarrow> Inl e
         | Inr data \<Rightarrow>
             (case get data ''candidates'' of
                Inl e \<Rightarrow> Inl e
              | Inr candidates \<Rightarrow>
                  (let text =
                     (if truthy candidates then
                        (case get candidates ''0'' of
                           Inl e \<Rightarrow> Undefined
                         | Inr c \<Rightarrow>
                             opt_get (opt_get (opt_get (opt_get c ''content'') ''parts'') ''0'') ''text'')
                      else candidates)
                   in if truthy text then Inr text
                      else
                        (case get data ''error'' of
                           Inl e \<Rightarrow> Inl e
                         | Inr err \<Rightarrow>
                             if truthy err then
                               Inl (new_ApiError num
                                 (js_or (opt_get err ''message'') (Str ''API returned an error''))
                                 (opt_get err ''code'') Undefined)
                             else
                               Inl (ApiError
                                 ''Invalid response format from Gemini API - no analysis text found''
                                 Undefined Undefined))))))"

text \<open>Lines 108 to 126: the \<open>catch\<close> of the client, as a map on what was thrown.\<close>

definition client_catch :: "exn \<Rightarrow> exn" where
  "client_catch e =
     (case e of
        ApiError m c d \<Rightarrow> e
      | TypeError m \<Rightarrow>
          if str_includes m ''fetch'' then
            ApiError ''Network error. Please check your internet connection and try again.''
              (Str ''NETWORK_ERROR'') Undefined
          else
            ApiError ''Failed to analyze image. Please try again later.''
              (Str ''UNKNOWN_ERROR'') Undefined
      | _ \<Rightarrow>
          ApiError ''Failed to analyze image. Please try again later.''
            (Str ''UNKNOWN_ERROR'') Undefined)"

text \<open>
  \<open>analyzeImageWithGemini\<close>. \<open>apiKey\<close> is \<open>import.meta.env.VITE_GEMINI_API_KEY\<close>
  (\<open>None\<close> when undefined), \<open>fetch\<close> the answer of the network to a request (\<open>Inl\<close> when
  \<open>fetch\<close> rejects).
\<close>

definition analyzeImageWithGemini ::
  "(real \<Rightarrow> string) \<Rightarrow> string option \<Rightarrow> (request \<Rightarrow> exn + Response)
     \<Rightarrow> string \<Rightarrow> string \<Rightarrow> string option \<Rightarrow> exn + jsval"
where
  "analyzeImageWithGemini num apiKey fetch base64Image mimeType customPrompt =
     (if or_default apiKey [] = [] \<or> apiKey = Some ''your_gemini_api_key_here'' then
        Inl (ApiError
          ''Gemini API key not configured. Please add your API key to the environment variables.''
          Undefined Undefined)
      else
        (let prompt = or_default customPrompt default_prompt;
             requestBody =
               \<lparr>req_url = GEMINI_API_ENDPOINT @ ''?key='' @ or_default apiKey [],
                req_text = prompt, req_mime_type = mimeType, req_data = base64Image\<rparr>
         in case fetch requestBody of
              Inl e \<Rightarrow> Inl (client_catch e)
            | Inr response \<Rightarrow>
                (case handle_response num response of
                   Inl e \<Rightarrow> Inl (client_catch e)
                 | Inr text \<Rightarrow> Inr text)))"


section \<open>The hook's state and the browser around it\<close>

datatype status = Idle | Uploading | Analyzing | Complete | Error

record UploadProgress =
  progress :: nat
  status :: status
  message :: "string option"

text \<open>\<open>AnalysisResult\<close>; its \<open>id\<close> is \<open>result_id\<close> here, since \<open>id\<close> is a HOL constant.\<close>

record AnalysisResult =
  result_id :: string
  timestamp :: nat
  imageUrl :: string
  fileName :: string
  analysis :: string
  confidence :: real
  tags :: "string list"

text \<open>The calls of the pipeline's asynchronous helpers, as the orchestrator makes them.\<close>

datatype call =
    Call_compressImage File
  | Call_convertToBase64 File
  | Call_analyzeImageWithGemini string string "string option"

text \<open>
  The three state variables of \<open>useImageAnalysis\<close> (\<open>results\<close>, \<open>progress\<close> and
  \<open>error\<close>, the latter two named \<open>progress_state\<close> and \<open>error_state\<close>) and what the
  browser holds beside them: every value handed to \<open>setProgress\<close> in order, the pending
  \<open>setTimeout\<close> callbacks (the delay in milliseconds and the progress value the callback
  sets), the object URLs that are created and not revoked, a counter that names the next
  object URL, and the calls made so far.
\<close>

record world =
  results :: "AnalysisResult list"
  progress_state :: UploadProgress
  error_state :: "string option"
  published :: "UploadProgress list"
  timers :: "(nat \<times> UploadProgress) list"
  blob_urls :: "string set"
  next_blob :: nat
  calls :: "call list"

text \<open>The hook as \<open>useState\<close> initialises it, in a browser that holds nothing yet.\<close>

definition initial_world :: world where
  "initial_world =
     \<lparr>results = [], progress_state = \<lparr>progress = 0, status = Idle, message = None\<rparr>,
      error_state = None, published = [], timers = [], blob_urls = {}, next_blob = 0,
      calls = []\<rparr>"

definition setProgress :: "UploadProgress \<Rightarrow> world \<Rightarrow> world" where
  "setProgress p w = w\<lparr>progress_state := p, published := published w @ [p]\<rparr>"

definition setError :: "string option \<Rightarrow> world \<Rightarrow> world" where
  "setError e w = w\<lparr>error_state := e\<rparr>"

definition setResults :: "(AnalysisResult list \<Rightarrow> AnalysisResult list) \<Rightarrow> world \<Rightarrow> world" where
  "setResults f w = w\<lparr>results := f (results w)\<rparr>"

text \<open>\<open>setTimeout(() => setProgress(p), ms)\<close>, and the browser running the oldest pending callback.\<close>

definition setTimeout :: "UploadProgress \<Rightarrow> nat \<Rightarrow> world \<Rightarrow> world" where
  "setTimeout p ms w = w\<lparr>timers := timers w @ [(ms, p)]\<rparr>"


definition createObjectURL :: "File \<Rightarrow> world \<Rightarrow> string \<times> world" where
  "createObjectURL f w =
     (let url = ''blob:'' @ decimal (next_blob w)
      in (url, w\<lparr>blob_urls := insert url (blob_urls w), next_blob := Suc (next_blob w)\<rparr>))"

definition revokeObjectURL :: "string \<Rightarrow> world \<Rightarrow> world" where
  "revokeObjectURL url w = w\<lparr>blob_urls := blob_urls w - {url}\<rparr>"

text \<open>
  What the outside answers during one run: the configured API key, the network, the
  engine's formatting of numbers, whether the canvas gives a 2D context, the decoded size of
  an image (\<open>None\<close> when it does not decode; a decoded image has positive width and
  height), the outcome of drawing and encoding a canvas of a given size (\<open>Inl\<close> the text
  of what was thrown, \<open>Inr None\<close> a null blob, \<open>Inr (Some n)\<close> a blob of \<open>n\<close> bytes),
  the \<open>FileReader\<close>'s event, the clock (for the id and for the timestamp) and
  \<open>Math.random()\<close>.
\<close>

datatype reader_event = Load jsval | ReadError "string option" | ReadAbort

record env =
  env_api_key :: "string option"
  env_fetch :: "request \<Rightarrow> exn + Response"
  env_conv :: "real \<Rightarrow> string"
  env_context2d :: bool
  env_image :: "File \<Rightarrow> (nat \<times> nat) option"
  env_toBlob :: "File \<Rightarrow> nat \<Rightarrow> nat \<Rightarrow> real \<Rightarrow> string + nat option"
  env_reader :: "File \<Rightarrow> reader_event"
  env_now :: nat
  env_date :: nat
  env_random :: real


section \<open>Compressor and encoder (src/utils/imageUtils.ts)\<close>

text \<open>
  Assigning a number to \<open>canvas.width\<close> or \<open>canvas.height\<close> (an \<open>unsigned long\<close>) drops
  its fraction.
\<close>

definition canvas_size :: "real \<Rightarrow> nat" where
  "canvas_size v = nat \<lfloor>v\<rfloor>"

text \<open>
  Lines 37 to 39: the canvas size for a decoded image of \<open>width\<close> by \<open>height\<close>, in
  double arithmetic.
\<close>

definition scaled_size :: "nat \<Rightarrow> nat \<Rightarrow> real \<Rightarrow> nat \<times> nat" where
  "scaled_size width height maxWidth =
     (let ratio = min (nearest_double (maxWidth / real width))
                      (nearest_double (maxWidth / real height))
      in (canvas_size (nearest_double (real width * ratio)),
          canvas_size (nearest_double (real height * ratio))))"

text \<open>
  \<open>compressImage\<close>: the promise resolves (\<open>Inr\<close>) with the re-encoded file or rejects
  (\<open>Inl\<close>). The object URL of the source is revoked when the image has loaded or failed
  to load.
\<close>

definition compressImage :: "env \<Rightarrow> File \<Rightarrow> real \<Rightarrow> real \<Rightarrow> world \<Rightarrow> (exn + File) \<times> world" where
  "compressImage env file maxWidth quality w =
     (if \<not> env_context2d env then (Inl (OtherError ''Canvas context not available''), w)
      else
        (let (objectUrl, w1) = createObjectURL file w in
         case env_image env file of
           None \<Rightarrow>
             (Inl (OtherError ''Failed to load image for compression''), revokeObjectURL objectUrl w1)
         | Some (width, height) \<Rightarrow>
             (let w2 = revokeObjectURL objectUrl w1;
                  (canvas_width, canvas_height) = scaled_size width height maxWidth
              in case env_toBlob env file canvas_width canvas_height quality of
                   Inl drawError \<Rightarrow>
                     (Inl (OtherError (''Failed to draw image on canvas: '' @ drawError)), w2)
                 | Inr None \<Rightarrow>
                     (Inl (OtherError ''Failed to compress image - blob creation failed''), w2)
                 | Inr (Some blob) \<Rightarrow>
                     (Inr \<lparr>file_name = file_name file, file_type = file_type file,
                           file_size = blob\<rparr>, w2))))"

text \<open>\<open>String.prototype.split(',')\<close>.\<close>

fun split_comma :: "string \<Rightarrow> string list" where
  "split_comma [] = [[]]"
| "split_comma (c # cs) =
     (if c = CHR '','' then [] # split_comma cs
      else (case split_comma cs of [] \<Rightarrow> [[c]] | p # ps \<Rightarrow> (c # p) # ps))"

text \<open>
  \<open>convertToBase64\<close>. The argument is a \<open>File\<close> by its type, so the first check of the
  source (\<open>!file || !(file instanceof File)\<close>) has no branch here.
\<close>

definition convertToBase64 :: "env \<Rightarrow> File \<Rightarrow> exn + string" where
  "convertToBase64 env file =
     (if file_size file = 0 then Inl (OtherError ''File is empty'')
      else
        (case env_reader env file of
           Load result \<Rightarrow>
             (case result of
                Str s \<Rightarrow>
                  (case split_comma s of
                     p # base64Data # ps \<Rightarrow>
                       if base64Data \<noteq> [] then Inr base64Data
                       else Inl (OtherError ''Failed to extract base64 data from file'')
                   | _ \<Rightarrow> Inl (OtherError ''Failed to extract base64 data from file''))
              | _ \<Rightarrow> Inl (OtherError ''FileReader result is not a string''))
         | ReadError m \<Rightarrow> Inl (OtherError (''FileReader error: '' @ or_default m ''Unknown error''))
         | ReadAbort \<Rightarrow> Inl (OtherError ''File reading was aborted'')))"


section \<open>Analysis orchestrator (the hook \<open>useImageAnalysis\<close>)\<close>

definition commonTags :: "string list" where
  "commonTags =
     [''portrait'', ''landscape'', ''nature'', ''urban'', ''indoor'', ''outdoor'',
      ''people'', ''animals'', ''architecture'', ''food'', ''technology'', ''art'',
      ''colorful'', ''monochrome'', ''bright'', ''dark'', ''vintage'', ''modern'']"

text \<open>\<open>String.prototype.toLowerCase\<close>, on the ASCII letters.\<close>

definition lower_char :: "char \<Rightarrow> char" where
  "lower_char c =
     (case map_of (zip ''ABCDEFGHIJKLMNOPQRSTUVWXYZ'' ''abcdefghijklmnopqrstuvwxyz'') c of
        Some l \<Rightarrow> l
      | None \<Rightarrow> c)"

definition toLowerCase :: "string \<Rightarrow> string" where
  "toLowerCase s = map lower_char s"

text \<open>
  \<open>extractTags\<close>. The analysis is whatever truthy value the client returned; calling
  \<open>toLowerCase\<close> on one that is no string throws a \<open>TypeError\<close>.
\<close>

definition extractTags :: "jsval \<Rightarrow> exn + string list" where
  "extractTags analysis_value =
     (case analysis_value of
        Str s \<Rightarrow>
          (let lowerAnalysis = toLowerCase s
           in Inr (take 5 (filter (\<lambda>tag. str_includes lowerAnalysis tag) commonTags)))
      | _ \<Rightarrow> Inl (TypeError ''analysis.toLowerCase is not a function''))"

text \<open>
  Lines 28 to 36: the compression phase. A rejected compression is caught and the
  original file is used.
\<close>

definition compress_phase :: "env \<Rightarrow> File \<Rightarrow> world \<Rightarrow> File \<times> world" where
  "compress_phase env file w =
     (if file_size file > 2 * 1024 * 1024 then
        (case compressImage env file 1920 0.8 (w\<lparr>calls := calls w @ [Call_compressImage file]\<rparr>) of
           (Inl compressionError, w') \<Rightarrow> (file, w')
         | (Inr compressed, w') \<Rightarrow> (compressed, w'))
      else (file, w))"

text \<open>
  Lines 67 to 88: the result is assembled (the fields of the object literal are evaluated
  in order, so the object URL exists before \<open>extractTags\<close> runs), put in front of the
  list, and the reset to idle is scheduled. The confidence is
  \<open>Math.random() * 0.2 + 0.8\<close> in double arithmetic.
\<close>

definition assemble :: "env \<Rightarrow> File \<Rightarrow> jsval \<Rightarrow> world \<Rightarrow> (exn + AnalysisResult) \<times> world" where
  "assemble env file analysis_value w =
     (let w1 = setProgress
                 \<lparr>progress = 90, status = Analyzing, message = Some ''Processing results...''\<rparr> w;
          (url, w2) = createObjectURL file w1
      in case extractTags analysis_value of
           Inl e \<Rightarrow> (Inl e, w2)
         | Inr extracted \<Rightarrow>
             (let result =
                    \<lparr>result_id = decimal (env_now env), timestamp = env_date env,
                     imageUrl = url, fileName = file_name file,
                     analysis = (case analysis_value of Str s \<Rightarrow> s | _ \<Rightarrow> []),
                     confidence =
                       nearest_double
                         (nearest_double (env_random env * nearest_double 0.2)
                          + nearest_double 0.8),
                     tags = extracted\<rparr>;
                  w3 = setResults (\<lambda>prev. result # prev) w2;
                  w4 = setProgress
                         \<lparr>progress = 100, status = Complete, message = Some ''Analysis complete!''\<rparr> w3;
                  w5 = setTimeout \<lparr>progress = 0, status = Idle, message = None\<rparr> 2000 w4
              in (Inr result, w5)))"

text \<open>Lines 51 to 65: the remote call; what is no \<open>ApiError\<close> is replaced by a plain \<open>Error\<close>.\<close>

definition analyze_phase :: "env \<Rightarrow> string \<Rightarrow> File \<Rightarrow> string option \<Rightarrow> world \<Rightarrow> (exn + jsval) \<times> world" where
  "analyze_phase env base64Image compressedFile customPrompt w =
     (let w1 = w\<lparr>calls := calls w @
                 [Call_analyzeImageWithGemini base64Image (file_type compressedFile) customPrompt]\<rparr>
      in case analyzeImageWithGemini (env_conv env) (env_api_key env) (env_fetch env)
                base64Image (file_type compressedFile) customPrompt of
           Inl apiError \<Rightarrow>
             (case apiError of
                ApiError m c d \<Rightarrow> (Inl apiError, w1)
              | _ \<Rightarrow> (Inl (OtherError ''Failed to analyze image with AI. Please try again.''), w1))
         | Inr v \<Rightarrow> (Inr v, w1))"

text \<open>Lines 19 to 88: the body of the \<open>try\<close>; \<open>Inl\<close> is what it throws.\<close>

definition analyzeImage_try ::
  "env \<Rightarrow> File \<Rightarrow> string option \<Rightarrow> world \<Rightarrow> (exn + AnalysisResult) \<times> world"
where
  "analyzeImage_try env file customPrompt w =
     (let validation = validateImageFile file in
      if \<not> isValid validation then
        (Inl (OtherError (or_default (error validation) ''Invalid file'')), w)
      else
        (let w1 = setProgress
                    \<lparr>progress = 20, status = Uploading, message = Some ''Compressing image...''\<rparr> w;
             (compressedFile, w2) = compress_phase env file w1;
             w3 = setProgress
                    \<lparr>progress = 40, status = Uploading, message = Some ''Converting to base64...''\<rparr> w2;
             w4 = w3\<lparr>calls := calls w3 @ [Call_convertToBase64 compressedFile]\<rparr>
         in case convertToBase64 env compressedFile of
              Inl conversionError \<Rightarrow>
                (Inl (OtherError ''Failed to process image. Please try with a different image.''), w4)
            | Inr base64Image \<Rightarrow>
                (let w5 = setProgress
                            \<lparr>progress = 60, status = Analyzing,
                             message = Some ''Analyzing with Gemini AI...''\<rparr> w4
                 in case analyze_phase env base64Image compressedFile customPrompt w5 of
                      (Inl e, w6) \<Rightarrow> (Inl e, w6)
                    | (Inr v, w6) \<Rightarrow> assemble env file v w6)))"

text \<open>Lines 89 to 103: the message that the \<open>catch\<close> of the orchestrator shows.\<close>

definition errorMessage :: "exn \<Rightarrow> string" where
  "errorMessage err =
     (case err of
        ApiError m c d \<Rightarrow> m
      | TypeError m \<Rightarrow> m
      | OtherError m \<Rightarrow> m
      | Thrown v \<Rightarrow> ''An unexpected error occurred'')"

text \<open>\<open>analyzeImage\<close>: the returned result (\<open>None\<close> for \<open>null\<close>) and the world after the run.\<close>

definition analyzeImage ::
  "env \<Rightarrow> File \<Rightarrow> string option \<Rightarrow> world \<Rightarrow> AnalysisResult option \<times> world"
where
  "analyzeImage env file customPrompt w =
     (let w0 = setProgress
                 \<lparr>progress = 0, status = Uploading, message = Some ''Validating file...''\<rparr>
                 (setError None w)
      in case analyzeImage_try env file customPrompt w0 of
           (Inr result, w') \<Rightarrow> (Some result, w')
         | (Inl err, w') \<Rightarrow>
             (None,
              setProgress \<lparr>progress = 0, status = Error, message = Some (errorMessage err)\<rparr>
                (setError (Some (errorMessage err)) w')))"

definition clearResults :: "world \<Rightarrow> world" where
  "clearResults w = setError None (setResults (\<lambda>prev. []) w)"

definition removeResult :: "string \<Rightarrow> world \<Rightarrow> world" where
  "removeResult rid w = setResults (\<lambda>prev. filter (\<lambda>result. result_id result \<noteq> rid) prev) w"

text \<open>The progress values that one run hands to \<open>setProgress\<close>, in order.\<close>

definition run_updates :: "env \<Rightarrow> File \<Rightarrow> string option \<Rightarrow> world \<Rightarrow> UploadProgress list" where
  "run_updates env file customPrompt w =
     drop (length (published w)) (published (snd (analyzeImage env file customPrompt w)))"

text \<open>The calls that one run makes, in order.\<close>

definition run_calls :: "env \<Rightarrow> File \<Rightarrow> string option \<Rightarrow> world \<Rightarrow> call list" where
  "run_calls env file customPrompt w =
     drop (length (calls w)) (calls (snd (analyzeImage env file customPrompt w)))"


section \<open>The order of the phases, and example runs\<close>


text \<open>
  A browser in which everything works: a key is configured, the service answers 200 with
  the text ``Good spread'', a 4000 by 3000 image is decoded and re-encoded to 900000
  bytes, and the reader delivers a data URL. The examples below change one answer at a
  time.
\<close>

definition example_body :: jsval where
  "example_body =
     Obj [(''candidates'',
           Arr [Obj [(''content'',
                      Obj [(''parts'', Arr [Obj [(''text'', Str ''Good spread'')]])])]])]"

definition example_env :: env where
  "example_env =
     \<lparr>env_api_key = Some ''AIzaSyExampleKey'',
      env_fetch = (\<lambda>r. Inr \<lparr>resp_status = 200, resp_json = Inr example_body\<rparr>),
      env_conv = (\<lambda>n. decimal (nat \<lfloor>n\<rfloor>)),
      env_context2d = True,
      env_image = (\<lambda>f. Some (4000, 3000)),
      env_toBlob = (\<lambda>f w h q. Inr (Some 900000)),
      env_reader = (\<lambda>f. Load (Str ''data:image/png;base64,iVBORw0KGgo='')),
      env_now = 1700000000000,
      env_date = 1700000000000,
      env_random = 1 / 2\<rparr>"

definition example_png :: File where
  "example_png = \<lparr>file_name = ''court.png'', file_type = ''image/png'', file_size = 512000\<rparr>"

definition example_jpeg :: File where
  "example_jpeg = \<lparr>file_name = ''court.jpg'', file_type = ''image/jpeg'', file_size = 3000000\<rparr>"

definition example_gif :: File where
  "example_gif = \<lparr>file_name = ''court.gif'', file_type = ''image/gif'', file_size = 512000\<rparr>"

text \<open>The service answers with a status and a body; the reader aborts; the compressor finds no image.\<close>

definition answering :: "nat \<Rightarrow> exn + jsval \<Rightarrow> env" where
  "answering s body = example_env\<lparr>env_fetch := (\<lambda>r. Inr \<lparr>resp_status = s, resp_json = body\<rparr>)\<rparr>"

definition reader_aborts :: env where
  "reader_aborts = example_env\<lparr>env_reader := (\<lambda>f. ReadAbort)\<rparr>"

definition image_fails :: env where
  "image_fails = example_env\<lparr>env_image := (\<lambda>f. None)\<rparr>"

text \<open>
  A 960 by 960 image, with an encoder whose blob has one byte per pixel of the canvas, so
  that the size of the compressed file shows the size of the canvas.
\<close>

definition small_image :: env where
  "small_image =
     example_env\<lparr>env_image := (\<lambda>f. Some (960, 960)),
                  env_toBlob := (\<lambda>f w h q. Inr (Some (w * h)))\<rparr>"

text \<open>\<open>Math.random()\<close> returns the largest multiple of \<open>2 ^ - 52\<close> below 1.\<close>

definition random_near_one :: env where
  "random_near_one = example_env\<lparr>env_random := 1 - 1 / 2 ^ 52\<rparr>"

section \<open>Properties of the validator\<close>

lemma array_includes_validTypes:
  "array_includes validTypes t = (t \<in> {''image/jpeg'', ''image/png'', ''image/webp''})"
  by (simp add: array_includes_def validTypes_def)

lemma maxSize_bytes: "maxSize = 10485760"
  by (simp add: maxSize_def)

lemma reasons_differ: "invalid_type_error \<noteq> too_large_error"
  by (simp add: invalid_type_error_def too_large_error_def)

text \<open>
  Claim C2. The validator answers with the type-related reason exactly when the declared
  MIME type is none of image/jpeg, image/png, image/webp; with the size-related reason
  exactly when the type is accepted and the size is strictly above 10 MiB = 10485760
  bytes; and with "valid" in every other case. The two reasons are different strings.
\<close>

theorem validateImageFile_cases:
  "(validateImageFile f = \<lparr>isValid = False, error = Some invalid_type_error\<rparr>)
     = (file_type f \<notin> {''image/jpeg'', ''image/png'', ''image/webp''})
   \<and> (validateImageFile f = \<lparr>isValid = False, error = Some too_large_error\<rparr>)
     = (file_type f \<in> {''image/jpeg'', ''image/png'', ''image/webp''} \<and> 10 * 1024 * 1024 < file_size f)
   \<and> (validateImageFile f = \<lparr>isValid = True, error = None\<rparr>)
     = (file_type f \<in> {''image/jpeg'', ''image/png'', ''image/webp''} \<and> file_size f \<le> 10 * 1024 * 1024)
   \<and> invalid_type_error \<noteq> too_large_error"
proof -
  have "array_includes validTypes (file_type f) \<or> \<not> array_includes validTypes (file_type f)"
    by blast
  then show ?thesis
  proof
    assume ok: "array_includes validTypes (file_type f)"
    then have mem: "file_type f \<in> {''image/jpeg'', ''image/png'', ''image/webp''}"
      by (simp only: array_includes_validTypes)
    show ?thesis
    proof (cases "file_size f > maxSize")
      case True
      then have "validateImageFile f = \<lparr>isValid = False, error = Some too_large_error\<rparr>"
        using ok by (simp add: validateImageFile_def)
      then show ?thesis
        using mem True reasons_differ by (simp add: maxSize_bytes)
    next
      case False
      then have "validateImageFile f = \<lparr>isValid = True, error = None\<rparr>"
        using ok by (simp add: validateImageFile_def)
      then show ?thesis
        using mem False reasons_differ by (simp add: maxSize_bytes)
    qed
  next
    assume bad: "\<not> array_includes validTypes (file_type f)"
    then have nmem: "file_type f \<notin> {''image/jpeg'', ''image/png'', ''image/webp''}"
      using array_includes_validTypes by blast
    have "validateImageFile f = \<lparr>isValid = False, error = Some invalid_type_error\<rparr>"
      using bad by (simp add: validateImageFile_def)
    then show ?thesis
      using nmem reasons_differ by simp
  qed
qed

text \<open>
  The same at concrete files: a PNG of exactly 10 MiB is accepted, one byte more is
  rejected for its size, and a GIF is rejected for its type.
\<close>

theorem validateImageFile_cases_witness:
  "validateImageFile \<lparr>file_name = ''court.png'', file_type = ''image/png'', file_size = 10485760\<rparr>
     = \<lparr>isValid = True, error = None\<rparr>
   \<and> validateImageFile \<lparr>file_name = ''court.png'', file_type = ''image/png'', file_size = 10485761\<rparr>
     = \<lparr>isValid = False, error = Some too_large_error\<rparr>
   \<and> validateImageFile \<lparr>file_name = ''court.gif'', file_type = ''image/gif'', file_size = 1\<rparr>
     = \<lparr>isValid = False, error = Some invalid_type_error\<rparr>"
  using validateImageFile_cases
          [of "\<lparr>file_name = ''court.png'', file_type = ''image/png'', file_size = 10485760\<rparr>"]
        validateImageFile_cases
          [of "\<lparr>file_name = ''court.png'', file_type = ''image/png'', file_size = 10485761\<rparr>"]
        validateImageFile_cases
          [of "\<lparr>file_name = ''court.gif'', file_type = ''image/gif'', file_size = 1\<rparr>"]
  by simp


section \<open>How each phase changes the world\<close>

lemma setProgress_simps [simp]:
  "results (setProgress p w) = results w"
  "progress_state (setProgress p w) = p"
  "error_state (setProgress p w) = error_state w"
  "published (setProgress p w) = published w @ [p]"
  "timers (setProgress p w) = timers w"
  "blob_urls (setProgress p w) = blob_urls w"
  "next_blob (setProgress p w) = next_blob w"
  "calls (setProgress p w) = calls w"
  by (simp_all add: setProgress_def)

lemma setError_simps [simp]:
  "results (setError e w) = results w"
  "progress_state (setError e w) = progress_state w"
  "error_state (setError e w) = e"
  "published (setError e w) = published w"
  "timers (setError e w) = timers w"
  "blob_urls (setError e w) = blob_urls w"
  "next_blob (setError e w) = next_blob w"
  "calls (setError e w) = calls w"
  by (simp_all add: setError_def)

lemma setResults_simps [simp]:
  "results (setResults f w) = f (results w)"
  "progress_state (setResults f w) = progress_state w"
  "error_state (setResults f w) = error_state w"
  "published (setResults f w) = published w"
  "timers (setResults f w) = timers w"
  "blob_urls (setResults f w) = blob_urls w"
  "next_blob (setResults f w) = next_blob w"
  "calls (setResults f w) = calls w"
  by (simp_all add: setResults_def)

lemma setTimeout_simps [simp]:
  "results (setTimeout p ms w) = results w"
  "progress_state (setTimeout p ms w) = progress_state w"
  "error_state (setTimeout p ms w) = error_state w"
  "published (setTimeout p ms w) = published w"
  "timers (setTimeout p ms w) = timers w @ [(ms, p)]"
  "blob_urls (setTimeout p ms w) = blob_urls w"
  "next_blob (setTimeout p ms w) = next_blob w"
  "calls (setTimeout p ms w) = calls w"
  by (simp_all add: setTimeout_def)

lemma createObjectURL_frame:
  "createObjectURL f w = (url, w') \<Longrightarrow>
     results w' = results w \<and> progress_state w' = progress_state w
     \<and> error_state w' = error_state w \<and> published w' = published w
     \<and> timers w' = timers w \<and> calls w' = calls w"
  by (auto simp: createObjectURL_def Let_def)

lemma createObjectURL_urls:
  "createObjectURL f w = (url, w') \<Longrightarrow>
     url = ''blob:'' @ decimal (next_blob w) \<and> blob_urls w' = insert url (blob_urls w)
     \<and> next_blob w' = Suc (next_blob w)"
  by (auto simp: createObjectURL_def Let_def)

lemma revokeObjectURL_simps [simp]:
  "results (revokeObjectURL u w) = results w"
  "progress_state (revokeObjectURL u w) = progress_state w"
  "error_state (revokeObjectURL u w) = error_state w"
  "published (revokeObjectURL u w) = published w"
  "timers (revokeObjectURL u w) = timers w"
  "blob_urls (revokeObjectURL u w) = blob_urls w - {u}"
  "next_blob (revokeObjectURL u w) = next_blob w"
  "calls (revokeObjectURL u w) = calls w"
  by (simp_all add: revokeObjectURL_def)

lemma compressImage_frame:
  "compressImage env file maxWidth quality w = (r, w') \<Longrightarrow>
     results w' = results w \<and> progress_state w' = progress_state w
     \<and> error_state w' = error_state w \<and> published w' = published w
     \<and> timers w' = timers w \<and> calls w' = calls w"
  by (auto simp: compressImage_def Let_def createObjectURL_def
        split: if_splits option.splits prod.splits sum.splits)

lemma compressImage_outcome:
  "fst (compressImage env file maxWidth quality w) = fst (compressImage env file maxWidth quality w0)"
  by (auto simp: compressImage_def Let_def createObjectURL_def
        split: if_splits option.splits prod.splits sum.splits)

lemma compress_phase_frame:
  "compress_phase env file w = (cf, w') \<Longrightarrow>
     results w' = results w \<and> progress_state w' = progress_state w
     \<and> error_state w' = error_state w \<and> published w' = published w
     \<and> timers w' = timers w"
  by (auto simp: compress_phase_def split: if_splits prod.splits sum.splits
        dest!: compressImage_frame)

lemma compress_phase_calls:
  "compress_phase env file w = (cf, w') \<Longrightarrow>
     calls w' = calls w @ (if 2 * 1024 * 1024 < file_size file then [Call_compressImage file] else [])"
  by (auto simp: compress_phase_def split: if_splits prod.splits sum.splits
        dest!: compressImage_frame)

lemma compress_phase_file:
  "compress_phase env file w = (cf, w') \<Longrightarrow>
     cf = (if 2 * 1024 * 1024 < file_size file then
             (case fst (compressImage env file 1920 0.8 w0) of Inl e \<Rightarrow> file | Inr c \<Rightarrow> c)
           else file)"
  using compressImage_outcome [of env "file" 1920 "0.8" "w\<lparr>calls := calls w @ [Call_compressImage file]\<rparr>" w0]
  by (auto simp: compress_phase_def split: if_splits prod.splits sum.splits)

lemma analyze_phase_frame:
  "analyze_phase env b64 cf cp w = (r, w') \<Longrightarrow>
     results w' = results w \<and> progress_state w' = progress_state w
     \<and> error_state w' = error_state w \<and> published w' = published w
     \<and> timers w' = timers w \<and> blob_urls w' = blob_urls w
     \<and> calls w' = calls w @ [Call_analyzeImageWithGemini b64 (file_type cf) cp]"
  by (auto simp: analyze_phase_def Let_def split: sum.splits exn.splits)

lemma assemble_failure:
  "assemble env file v w = (Inl e, w') \<Longrightarrow>
     results w' = results w \<and> timers w' = timers w \<and> calls w' = calls w
     \<and> published w' = published w @
          [\<lparr>progress = 90, status = Analyzing, message = Some ''Processing results...''\<rparr>]"
  by (auto simp: assemble_def Let_def split: prod.splits sum.splits dest!: createObjectURL_frame)

lemma assemble_success:
  "assemble env file v w = (Inr result, w') \<Longrightarrow>
     results w' = result # results w
     \<and> timers w' = timers w @ [(2000, \<lparr>progress = 0, status = Idle, message = None\<rparr>)]
     \<and> calls w' = calls w
     \<and> progress_state w' = \<lparr>progress = 100, status = Complete, message = Some ''Analysis complete!''\<rparr>
     \<and> error_state w' = error_state w
     \<and> published w' = published w @
          [\<lparr>progress = 90, status = Analyzing, message = Some ''Processing results...''\<rparr>,
           \<lparr>progress = 100, status = Complete, message = Some ''Analysis complete!''\<rparr>]"
  by (auto simp: assemble_def Let_def split: prod.splits sum.splits dest!: createObjectURL_frame)


lemma try_published:
  "analyzeImage_try env file cp w = (r, w') \<Longrightarrow>
     \<exists>us. published w' = published w @ us \<and>
       (case r of
          Inr res \<Rightarrow>
            us = [\<lparr>progress = 20, status = Uploading, message = Some ''Compressing image...''\<rparr>,
                  \<lparr>progress = 40, status = Uploading, message = Some ''Converting to base64...''\<rparr>,
                  \<lparr>progress = 60, status = Analyzing, message = Some ''Analyzing with Gemini AI...''\<rparr>,
                  \<lparr>progress = 90, status = Analyzing, message = Some ''Processing results...''\<rparr>,
                  \<lparr>progress = 100, status = Complete, message = Some ''Analysis complete!''\<rparr>]
        | Inl e \<Rightarrow>
            us = []
            \<or> us = [\<lparr>progress = 20, status = Uploading, message = Some ''Compressing image...''\<rparr>,
                  \<lparr>progress = 40, status = Uploading, message = Some ''Converting to base64...''\<rparr>]
            \<or> us = [\<lparr>progress = 20, status = Uploading, message = Some ''Compressing image...''\<rparr>,
                  \<lparr>progress = 40, status = Uploading, message = Some ''Converting to base64...''\<rparr>,
                  \<lparr>progress = 60, status = Analyzing, message = Some ''Analyzing with Gemini AI...''\<rparr>]
            \<or> us = [\<lparr>progress = 20, status = Uploading, message = Some ''Compressing image...''\<rparr>,
                  \<lparr>progress = 40, status = Uploading, message = Some ''Converting to base64...''\<rparr>,
                  \<lparr>progress = 60, status = Analyzing, message = Some ''Analyzing with Gemini AI...''\<rparr>,
                  \<lparr>progress = 90, status = Analyzing, message = Some ''Processing results...''\<rparr>])"
  by (cases r)
     (auto simp: analyzeImage_try_def Let_def
        split: if_splits prod.splits sum.splits
        dest!: compress_phase_frame analyze_phase_frame assemble_failure assemble_success)

lemma try_results:
  "analyzeImage_try env file cp w = (r, w') \<Longrightarrow>
     results w' = (case r of Inl e \<Rightarrow> results w | Inr res \<Rightarrow> res # results w)"
  by (cases r)
     (auto simp: analyzeImage_try_def Let_def
        split: if_splits prod.splits sum.splits
        dest!: compress_phase_frame analyze_phase_frame assemble_failure assemble_success)

lemma try_timers:
  "analyzeImage_try env file cp w = (r, w') \<Longrightarrow>
     timers w' = (case r of Inl e \<Rightarrow> timers w
                  | Inr res \<Rightarrow> timers w @ [(2000, \<lparr>progress = 0, status = Idle, message = None\<rparr>)])"
  by (cases r)
     (auto simp: analyzeImage_try_def Let_def
        split: if_splits prod.splits sum.splits
        dest!: compress_phase_frame analyze_phase_frame assemble_failure assemble_success)

lemma try_success_state:
  "analyzeImage_try env file cp w = (Inr res, w') \<Longrightarrow>
     progress_state w' = \<lparr>progress = 100, status = Complete, message = Some ''Analysis complete!''\<rparr>"
  by (auto simp: analyzeImage_try_def Let_def
        split: if_splits prod.splits sum.splits
        dest!: compress_phase_frame analyze_phase_frame assemble_failure assemble_success)


text \<open>The definitions that a concrete run unfolds.\<close>

lemmas run_defs =
  analyzeImage_def analyzeImage_try_def validateImageFile_def array_includes_def validTypes_def
  maxSize_def compress_phase_def compressImage_def createObjectURL_def scaled_size_def canvas_size_def
  convertToBase64_def analyze_phase_def analyzeImageWithGemini_def handle_response_def
  response_ok_def client_catch_def or_default_def assemble_def extractTags_def errorMessage_def
  example_env_def example_png_def example_jpeg_def example_gif_def answering_def reader_aborts_def
  image_fails_def small_image_def random_near_one_def example_body_def js_or_def new_ApiError_def default_prompt_def GEMINI_API_ENDPOINT_def
  initial_world_def setProgress_def setError_def setResults_def setTimeout_def revokeObjectURL_def
  Let_def



lemma run_cases:
  obtains (failed) err w1 where
      "analyzeImage_try env file customPrompt
         (setProgress \<lparr>progress = 0, status = Uploading, message = Some ''Validating file...''\<rparr>
            (setError None w)) = (Inl err, w1)"
      "analyzeImage env file customPrompt w =
         (None, setProgress \<lparr>progress = 0, status = Error, message = Some (errorMessage err)\<rparr>
                  (setError (Some (errorMessage err)) w1))"
  | (succeeded) result w1 where
      "analyzeImage_try env file customPrompt
         (setProgress \<lparr>progress = 0, status = Uploading, message = Some ''Validating file...''\<rparr>
            (setError None w)) = (Inr result, w1)"
      "analyzeImage env file customPrompt w = (Some result, w1)"
proof -
  let ?w0 = "setProgress \<lparr>progress = 0, status = Uploading, message = Some ''Validating file...''\<rparr>
               (setError None w)"
  obtain r w1 where t: "analyzeImage_try env file customPrompt ?w0 = (r, w1)"
    by (cases "analyzeImage_try env file customPrompt ?w0") blast
  show thesis
  proof (cases r)
    case (Inl err)
    with t have "analyzeImage env file customPrompt w =
         (None, setProgress \<lparr>progress = 0, status = Error, message = Some (errorMessage err)\<rparr>
                  (setError (Some (errorMessage err)) w1))"
      by (simp add: analyzeImage_def Let_def)
    with t Inl show thesis by (intro failed) simp_all
  next
    case (Inr result)
    with t have "analyzeImage env file customPrompt w = (Some result, w1)"
      by (simp add: analyzeImage_def Let_def)
    with t Inr show thesis by (intro succeeded) simp_all
  qed
qed

lemma run_updates_cases:
  "(\<exists>result. fst (analyzeImage env file customPrompt w) = Some result
      \<and> timers (snd (analyzeImage env file customPrompt w))
          = timers w @ [(2000, \<lparr>progress = 0, status = Idle, message = None\<rparr>)]
      \<and> progress_state (snd (analyzeImage env file customPrompt w))
          = \<lparr>progress = 100, status = Complete, message = Some ''Analysis complete!''\<rparr>
      \<and> run_updates env file customPrompt w =
         [\<lparr>progress = 0, status = Uploading, message = Some ''Validating file...''\<rparr>,
          \<lparr>progress = 20, status = Uploading, message = Some ''Compressing image...''\<rparr>,
          \<lparr>progress = 40, status = Uploading, message = Some ''Converting to base64...''\<rparr>,
          \<lparr>progress = 60, status = Analyzing, message = Some ''Analyzing with Gemini AI...''\<rparr>,
          \<lparr>progress = 90, status = Analyzing, message = Some ''Processing results...''\<rparr>,
          \<lparr>progress = 100, status = Complete, message = Some ''Analysis complete!''\<rparr>])
   \<or> (\<exists>m us. fst (analyzeImage env file customPrompt w) = None
      \<and> timers (snd (analyzeImage env file customPrompt w)) = timers w
      \<and> progress_state (snd (analyzeImage env file customPrompt w))
          = \<lparr>progress = 0, status = Error, message = Some m\<rparr>
      \<and> run_updates env file customPrompt w =
           \<lparr>progress = 0, status = Uploading, message = Some ''Validating file...''\<rparr> # us
           @ [\<lparr>progress = 0, status = Error, message = Some m\<rparr>]
      \<and> (us = []
         \<or> us = [\<lparr>progress = 20, status = Uploading, message = Some ''Compressing image...''\<rparr>,
                 \<lparr>progress = 40, status = Uploading, message = Some ''Converting to base64...''\<rparr>]
         \<or> us = [\<lparr>progress = 20, status = Uploading, message = Some ''Compressing image...''\<rparr>,
                 \<lparr>progress = 40, status = Uploading, message = Some ''Converting to base64...''\<rparr>,
                 \<lparr>progress = 60, status = Analyzing, message = Some ''Analyzing with Gemini AI...''\<rparr>]
         \<or> us = [\<lparr>progress = 20, status = Uploading, message = Some ''Compressing image...''\<rparr>,
                 \<lparr>progress = 40, status = Uploading, message = Some ''Converting to base64...''\<rparr>,
                 \<lparr>progress = 60, status = Analyzing, message = Some ''Analyzing with Gemini AI...''\<rparr>,
                 \<lparr>progress = 90, status = Analyzing, message = Some ''Processing results...''\<rparr>]))"
proof (cases rule: run_cases [of env "file" customPrompt w])
  case (failed err w1)
  from try_published [OF failed(1)] obtain us where
    us: "published w1 = published w
           @ [\<lparr>progress = 0, status = Uploading, message = Some ''Validating file...''\<rparr>] @ us"
    and shape: "us = []
         \<or> us = [\<lparr>progress = 20, status = Uploading, message = Some ''Compressing image...''\<rparr>,
                 \<lparr>progress = 40, status = Uploading, message = Some ''Converting to base64...''\<rparr>]
         \<or> us = [\<lparr>progress = 20, status = Uploading, message = Some ''Compressing image...''\<rparr>,
                 \<lparr>progress = 40, status = Uploading, message = Some ''Converting to base64...''\<rparr>,
                 \<lparr>progress = 60, status = Analyzing, message = Some ''Analyzing with Gemini AI...''\<rparr>]
         \<or> us = [\<lparr>progress = 20, status = Uploading, message = Some ''Compressing image...''\<rparr>,
                 \<lparr>progress = 40, status = Uploading, message = Some ''Converting to base64...''\<rparr>,
                 \<lparr>progress = 60, status = Analyzing, message = Some ''Analyzing with Gemini AI...''\<rparr>,
                 \<lparr>progress = 90, status = Analyzing, message = Some ''Processing results...''\<rparr>]"
    by auto
  have "run_updates env file customPrompt w =
           \<lparr>progress = 0, status = Uploading, message = Some ''Validating file...''\<rparr> # us
           @ [\<lparr>progress = 0, status = Error, message = Some (errorMessage err)\<rparr>]"
    using failed(2) us by (simp add: run_updates_def)
  moreover have "timers (snd (analyzeImage env file customPrompt w)) = timers w"
    using failed(2) try_timers [OF failed(1)] by simp
  moreover have "progress_state (snd (analyzeImage env file customPrompt w))
          = \<lparr>progress = 0, status = Error, message = Some (errorMessage err)\<rparr>"
    using failed(2) by simp
  moreover have "fst (analyzeImage env file customPrompt w) = None"
    using failed(2) by simp
  ultimately show ?thesis using shape by blast
next
  case (succeeded result w1)
  from try_published [OF succeeded(1)] have
    "published w1 = published w
       @ [\<lparr>progress = 0, status = Uploading, message = Some ''Validating file...''\<rparr>,
          \<lparr>progress = 20, status = Uploading, message = Some ''Compressing image...''\<rparr>,
          \<lparr>progress = 40, status = Uploading, message = Some ''Converting to base64...''\<rparr>,
          \<lparr>progress = 60, status = Analyzing, message = Some ''Analyzing with Gemini AI...''\<rparr>,
          \<lparr>progress = 90, status = Analyzing, message = Some ''Processing results...''\<rparr>,
          \<lparr>progress = 100, status = Complete, message = Some ''Analysis complete!''\<rparr>]"
    by auto
  then have "run_updates env file customPrompt w =
         [\<lparr>progress = 0, status = Uploading, message = Some ''Validating file...''\<rparr>,
          \<lparr>progress = 20, status = Uploading, message = Some ''Compressing image...''\<rparr>,
          \<lparr>progress = 40, status = Uploading, message = Some ''Converting to base64...''\<rparr>,
          \<lparr>progress = 60, status = Analyzing, message = Some ''Analyzing with Gemini AI...''\<rparr>,
          \<lparr>progress = 90, status = Analyzing, message = Some ''Processing results...''\<rparr>,
          \<lparr>progress = 100, status = Complete, message = Some ''Analysis complete!''\<rparr>]"
    using succeeded(2) by (simp add: run_updates_def)
  moreover have "timers (snd (analyzeImage env file customPrompt w))
          = timers w @ [(2000, \<lparr>progress = 0, status = Idle, message = None\<rparr>)]"
    using succeeded(2) try_timers [OF succeeded(1)] by simp
  moreover have "progress_state (snd (analyzeImage env file customPrompt w))
          = \<lparr>progress = 100, status = Complete, message = Some ''Analysis complete!''\<rparr>"
    using succeeded(2) try_success_state [OF succeeded(1)] by simp
  moreover have "fst (analyzeImage env file customPrompt w) = Some result"
    using succeeded(2) by simp
  ultimately show ?thesis by blast
qed

lemma assemble_calls:
  "assemble env file v w = (r, w') \<Longrightarrow> calls w' = calls w"
  using assemble_failure [of env "file" v w _ w'] assemble_success [of env "file" v w _ w']
  by (cases r) auto

lemma assemble_published:
  "assemble env file v w = (r, w') \<Longrightarrow> \<exists>us. published w' = published w @ us"
  using assemble_failure [of env "file" v w _ w'] assemble_success [of env "file" v w _ w']
  by (cases r) auto

lemma analyze_phase_result:
  "analyze_phase env b64 cf cp w = (r, w') \<Longrightarrow>
     (r = Inr v) =
       (analyzeImageWithGemini (env_conv env) (env_api_key env) (env_fetch env) b64 (file_type cf) cp
          = Inr v)"
  by (auto simp: analyze_phase_def Let_def split: sum.splits exn.splits)

lemma assemble_result:
  "assemble env file v w = (r, w') \<Longrightarrow> (\<exists>res. r = Inr res) = (\<exists>s. v = Str s)"
  by (cases v) (auto simp: assemble_def extractTags_def Let_def split: prod.splits)

lemma try_calls:
  assumes run: "analyzeImage_try env file customPrompt w = (r, w')"
    and valid: "isValid (validateImageFile file)"
    and cf: "compressedFile =
               (if 2 * 1024 * 1024 < file_size file then
                  (case fst (compressImage env file 1920 0.8 wa) of Inl e \<Rightarrow> file | Inr c \<Rightarrow> c)
                else file)"
  shows "calls w' =
            calls w
            @ (if 2 * 1024 * 1024 < file_size file then [Call_compressImage file] else [])
            @ [Call_convertToBase64 compressedFile]
            @ (case convertToBase64 env compressedFile of
                 Inl e \<Rightarrow> []
               | Inr base64Image \<Rightarrow>
                   [Call_analyzeImageWithGemini base64Image (file_type compressedFile) customPrompt])"
    and "\<exists>more. published w' = published w
                @ [\<lparr>progress = 20, status = Uploading, message = Some ''Compressing image...''\<rparr>,
                   \<lparr>progress = 40, status = Uploading, message = Some ''Converting to base64...''\<rparr>]
                @ more"
    and "(\<exists>res. r = Inr res) =
           (\<exists>base64Image s. convertToBase64 env compressedFile = Inr base64Image
              \<and> analyzeImageWithGemini (env_conv env) (env_api_key env) (env_fetch env)
                    base64Image (file_type compressedFile) customPrompt = Inr (Str s))"
proof -
  let ?p20 = "\<lparr>progress = 20, status = Uploading, message = Some ''Compressing image...''\<rparr>"
  let ?w1 = "setProgress \<lparr>progress = 20, status = Uploading, message = Some ''Compressing image...''\<rparr> w"
  let ?p40 = "\<lparr>progress = 40, status = Uploading, message = Some ''Converting to base64...''\<rparr>"
  let ?p60 = "\<lparr>progress = 60, status = Analyzing, message = Some ''Analyzing with Gemini AI...''\<rparr>"
  let ?big = "2 * 1024 * 1024 < file_size file"
  obtain cf' w2 where cp': "compress_phase env file ?w1 = (cf', w2)"
    by (cases "compress_phase env file ?w1") blast
  from compress_phase_file [OF cp', of wa] cf have "cf' = compressedFile" by simp
  with cp' have cp: "compress_phase env file ?w1 = (compressedFile, w2)" by simp
  from compress_phase_calls [OF cp]
  have c2: "calls w2 = calls w @ (if ?big then [Call_compressImage file] else [])"
    by simp
  let ?w4 = "(setProgress ?p40 w2)\<lparr>calls := calls (setProgress ?p40 w2)
               @ [Call_convertToBase64 compressedFile]\<rparr>"
  have c4: "calls ?w4 = calls w @ (if ?big then [Call_compressImage file] else [])
              @ [Call_convertToBase64 compressedFile]"
    using c2 by simp
  from compress_phase_frame [OF cp]
  have p4: "published ?w4 = published w @ [?p20, ?p40]" by simp
  have "calls w' =
            calls w
            @ (if ?big then [Call_compressImage file] else [])
            @ [Call_convertToBase64 compressedFile]
            @ (case convertToBase64 env compressedFile of
                 Inl e \<Rightarrow> []
               | Inr base64Image \<Rightarrow>
                   [Call_analyzeImageWithGemini base64Image (file_type compressedFile) customPrompt])
     \<and> (\<exists>more. published w' = published w @ [?p20, ?p40] @ more)
     \<and> ((\<exists>res. r = Inr res) =
           (\<exists>base64Image s. convertToBase64 env compressedFile = Inr base64Image
              \<and> analyzeImageWithGemini (env_conv env) (env_api_key env) (env_fetch env)
                    base64Image (file_type compressedFile) customPrompt = Inr (Str s)))"
  proof (cases "convertToBase64 env compressedFile")
    case (Inl e)
    with run valid cp have "w' = ?w4" "\<exists>err. r = Inl err"
      by (auto simp: analyzeImage_try_def Let_def)
    with c4 p4 Inl show ?thesis by auto
  next
    case (Inr b64)
    obtain r6 w6 where ap: "analyze_phase env b64 compressedFile customPrompt (setProgress ?p60 ?w4) = (r6, w6)"
      by (cases "analyze_phase env b64 compressedFile customPrompt (setProgress ?p60 ?w4)") blast
    from analyze_phase_frame [OF ap]
    have c6: "calls w6 = calls ?w4
                @ [Call_analyzeImageWithGemini b64 (file_type compressedFile) customPrompt]"
      and p6: "published w6 = published ?w4 @ [?p60]"
      by simp_all
    note remote = analyze_phase_result [OF ap]
    have "calls w' = calls w6 \<and> (\<exists>more. published w' = published w @ [?p20, ?p40] @ more)
       \<and> ((\<exists>res. r = Inr res) = (\<exists>s. r6 = Inr (Str s)))"
    proof (cases r6)
      case (Inl e)
      with run valid cp Inr ap have "w' = w6" "r = Inl e"
        by (simp_all add: analyzeImage_try_def Let_def)
      with p6 p4 Inl show ?thesis by simp
    next
      case v: (Inr v)
      with run valid cp Inr ap have a: "assemble env file v w6 = (r, w')"
        by (simp add: analyzeImage_try_def Let_def)
      from assemble_published [OF a] obtain us where "published w' = published w6 @ us" ..
      with p6 p4 assemble_calls [OF a] assemble_result [OF a] v show ?thesis by simp
    qed
    with c6 c4 Inr remote show ?thesis by simp
  qed
  then show "calls w' =
            calls w
            @ (if ?big then [Call_compressImage file] else [])
            @ [Call_convertToBase64 compressedFile]
            @ (case convertToBase64 env compressedFile of
                 Inl e \<Rightarrow> []
               | Inr base64Image \<Rightarrow>
                   [Call_analyzeImageWithGemini base64Image (file_type compressedFile) customPrompt])"
    and "\<exists>more. published w' = published w @ [?p20, ?p40] @ more"
    and "(\<exists>res. r = Inr res) =
           (\<exists>base64Image s. convertToBase64 env compressedFile = Inr base64Image
              \<and> analyzeImageWithGemini (env_conv env) (env_api_key env) (env_fetch env)
                    base64Image (file_type compressedFile) customPrompt = Inr (Str s))"
    by blast+
qed

section \<open>Failed runs\<close>

lemma validation_failure_throws:
  "\<not> isValid (validateImageFile file) \<Longrightarrow>
     fst (analyzeImage_try env file customPrompt w)
       = Inl (OtherError (or_default (error (validateImageFile file)) ''Invalid file''))"
  by (simp add: analyzeImage_try_def Let_def)

lemma compress_phase_file_indep:
  "fst (compress_phase env file w) = fst (compress_phase env file wa)"
proof -
  obtain cf w' where a: "compress_phase env file w = (cf, w')"
    by (cases "compress_phase env file w") blast
  obtain cf' w'' where b: "compress_phase env file wa = (cf', w'')"
    by (cases "compress_phase env file wa") blast
  from compress_phase_file [OF a, of wa] compress_phase_file [OF b, of wa] a b
  show ?thesis by simp
qed

lemma encoding_failure_throws:
  assumes "isValid (validateImageFile file)"
    and "convertToBase64 env (fst (compress_phase env file wa)) = Inl e"
  shows "fst (analyzeImage_try env file customPrompt w)
           = Inl (OtherError ''Failed to process image. Please try with a different image.'')"
proof -
  let ?w1 = "setProgress \<lparr>progress = 20, status = Uploading, message = Some ''Compressing image...''\<rparr> w"
  obtain cf w2 where cp: "compress_phase env file ?w1 = (cf, w2)"
    by (cases "compress_phase env file ?w1") blast
  with compress_phase_file_indep [of env "file" ?w1 wa] have "cf = fst (compress_phase env file wa)"
    by simp
  with assms cp show ?thesis
    by (simp add: analyzeImage_try_def Let_def)
qed

lemma remote_failure_throws:
  assumes "isValid (validateImageFile file)"
    and "convertToBase64 env (fst (compress_phase env file wa)) = Inr base64Image"
    and "analyzeImageWithGemini (env_conv env) (env_api_key env) (env_fetch env) base64Image
           (file_type (fst (compress_phase env file wa))) customPrompt = Inl e"
  shows "fst (analyzeImage_try env file customPrompt w)
           = Inl (case e of ApiError m c d \<Rightarrow> e
                  | _ \<Rightarrow> OtherError ''Failed to analyze image with AI. Please try again.'')"
proof -
  let ?w1 = "setProgress \<lparr>progress = 20, status = Uploading, message = Some ''Compressing image...''\<rparr> w"
  obtain cf w2 where cp: "compress_phase env file ?w1 = (cf, w2)"
    by (cases "compress_phase env file ?w1") blast
  with compress_phase_file_indep [of env "file" ?w1 wa] have "cf = fst (compress_phase env file wa)"
    by simp
  with assms cp show ?thesis
    by (cases e) (simp_all add: analyzeImage_try_def analyze_phase_def Let_def)
qed

text \<open>
  Claim C3. A run whose \<open>try\<close> body throws \<open>err\<close>, whatever the phase that failed
  (validation, encoding and the remote call throw as the three lemmas above say, and the
  assembly of the result can throw as well), returns
  \<open>null\<close>, leaves the progress at percent 0 in phase Error with the message of \<open>err\<close>,
  stores the same message in the error state, and leaves the result list as it was
  before the run.
\<close>

theorem analyzeImage_failure:
  assumes "fst (analyzeImage_try env file customPrompt
                 (setProgress \<lparr>progress = 0, status = Uploading, message = Some ''Validating file...''\<rparr>
                    (setError None w))) = Inl err"
  shows "fst (analyzeImage env file customPrompt w) = None
     \<and> progress_state (snd (analyzeImage env file customPrompt w))
         = \<lparr>progress = 0, status = Error, message = Some (errorMessage err)\<rparr>
     \<and> error_state (snd (analyzeImage env file customPrompt w)) = Some (errorMessage err)
     \<and> results (snd (analyzeImage env file customPrompt w)) = results w"
proof (cases rule: run_cases [of env "file" customPrompt w])
  case (failed err' w1)
  with assms have "err' = err" by simp
  with failed try_results [OF failed(1)] show ?thesis by simp
next
  case (succeeded result w1)
  with assms show ?thesis by simp
qed

text \<open>
  The remote service answers 429 (with a body that is no JSON): the run ends in phase
  Error with the rate-limit message, and the result list stays empty. A GIF fails the
  validation and an aborted read fails the encoding, with the same end.
\<close>

theorem analyzeImage_failure_witness:
  "fst (analyzeImage (answering 429 (Inl (OtherError ''Unexpected end of JSON input'')))
          example_png None initial_world) = None
   \<and> progress_state (snd (analyzeImage (answering 429 (Inl (OtherError ''Unexpected end of JSON input'')))
          example_png None initial_world))
       = \<lparr>progress = 0, status = Error,
          message = Some ''Rate limit exceeded. Please wait a moment and try again.''\<rparr>
   \<and> results (snd (analyzeImage (answering 429 (Inl (OtherError ''Unexpected end of JSON input'')))
          example_png None initial_world)) = []
   \<and> progress_state (snd (analyzeImage example_env example_gif None initial_world))
       = \<lparr>progress = 0, status = Error, message = Some invalid_type_error\<rparr>
   \<and> results (snd (analyzeImage example_env example_gif None initial_world)) = []
   \<and> progress_state (snd (analyzeImage reader_aborts example_png None initial_world))
       = \<lparr>progress = 0, status = Error,
          message = Some ''Failed to process image. Please try with a different image.''\<rparr>
   \<and> results (snd (analyzeImage reader_aborts example_png None initial_world)) = []"
proof -
  let ?w0 = "setProgress \<lparr>progress = 0, status = Uploading, message = Some ''Validating file...''\<rparr>
               (setError None initial_world)"
  have remote: "fst (analyzeImage_try (answering 429 (Inl (OtherError ''Unexpected end of JSON input'')))
                  example_png None ?w0)
      = Inl (ApiError ''Rate limit exceeded. Please wait a moment and try again.''
               (Str ''RATE_LIMIT'') Undefined)"
    by (simp add: run_defs)
  have invalid: "fst (analyzeImage_try example_env example_gif None ?w0)
      = Inl (OtherError invalid_type_error)"
    by (simp add: run_defs) (simp add: invalid_type_error_def)
  have encoding: "fst (analyzeImage_try reader_aborts example_png None ?w0)
      = Inl (OtherError ''Failed to process image. Please try with a different image.'')"
    by (simp add: run_defs)
  have empty: "results initial_world = []"
    by (simp add: initial_world_def)
  from analyzeImage_failure [OF remote] analyzeImage_failure [OF invalid]
    analyzeImage_failure [OF encoding] empty
  show ?thesis by (simp add: errorMessage_def)
qed

section \<open>The compression phase\<close>

text \<open>
  Claim C5. For a file that passes validation, the calls of a run are exactly these: one
  call of \<open>compressImage\<close> on the file when, and only when, its size is strictly above
  2 MiB; then the call of \<open>convertToBase64\<close>; then, when the encoding succeeds, the call
  of \<open>analyzeImageWithGemini\<close> with the encoded data. The encoder and the remote call
  receive the original file and its type when the size is at most 2 MiB and when the
  compression rejects, and the compressed file otherwise. So a rejected compression does
  not end the run: the 40 percent update is published, the remaining phases run on the
  original file, and the run returns a result exactly when the encoding succeeds and the
  service returns a text.
\<close>

theorem compression_threshold:
  assumes "isValid (validateImageFile file)"
  shows "(let big = 2 * 1024 * 1024 < file_size file;
              compressedFile =
                (if big then
                   (case fst (compressImage env file 1920 0.8 wa) of
                      Inl compressionError \<Rightarrow> file | Inr compressed \<Rightarrow> compressed)
                 else file)
          in run_calls env file customPrompt w =
               (if big then [Call_compressImage file] else [])
               @ [Call_convertToBase64 compressedFile]
               @ (case convertToBase64 env compressedFile of
                    Inl conversionError \<Rightarrow> []
                  | Inr base64Image \<Rightarrow>
                      [Call_analyzeImageWithGemini base64Image (file_type compressedFile)
                         customPrompt])
             \<and> \<lparr>progress = 40, status = Uploading, message = Some ''Converting to base64...''\<rparr>
                 \<in> set (run_updates env file customPrompt w)
             \<and> (fst (analyzeImage env file customPrompt w) \<noteq> None) =
                 (\<exists>base64Image s.
                    convertToBase64 env compressedFile = Inr base64Image
                    \<and> analyzeImageWithGemini (env_conv env) (env_api_key env) (env_fetch env)
                         base64Image (file_type compressedFile) customPrompt = Inr (Str s)))"
proof -
  let ?p0 = "\<lparr>progress = 0, status = Uploading, message = Some ''Validating file...''\<rparr>"
  let ?p40 = "\<lparr>progress = 40, status = Uploading, message = Some ''Converting to base64...''\<rparr>"
  let ?w0 = "setProgress ?p0 (setError None w)"
  define compressedFile where "compressedFile =
      (if 2 * 1024 * 1024 < file_size file then
         (case fst (compressImage env file 1920 0.8 wa) of Inl e \<Rightarrow> file | Inr c \<Rightarrow> c)
       else file)"
  obtain r w1 where t: "analyzeImage_try env file customPrompt ?w0 = (r, w1)"
    by (cases "analyzeImage_try env file customPrompt ?w0") blast
  note exact = try_calls [OF t assms compressedFile_def]
  have "calls (snd (analyzeImage env file customPrompt w)) = calls w1"
    using t by (cases r) (simp_all add: analyzeImage_def Let_def)
  with exact(1) have calls: "run_calls env file customPrompt w =
       (if 2 * 1024 * 1024 < file_size file then [Call_compressImage file] else [])
       @ [Call_convertToBase64 compressedFile]
       @ (case convertToBase64 env compressedFile of
            Inl e \<Rightarrow> []
          | Inr base64Image \<Rightarrow>
              [Call_analyzeImageWithGemini base64Image (file_type compressedFile) customPrompt])"
    by (simp add: run_calls_def)
  from exact(2) obtain more where "published w1 = published w
         @ [?p0, \<lparr>progress = 20, status = Uploading, message = Some ''Compressing image...''\<rparr>, ?p40]
         @ more"
    by auto
  then have update: "?p40 \<in> set (run_updates env file customPrompt w)"
    using t by (cases r) (auto simp: analyzeImage_def Let_def run_updates_def)
  have "(fst (analyzeImage env file customPrompt w) \<noteq> None) = (\<exists>res. r = Inr res)"
    using t by (cases r) (simp_all add: analyzeImage_def Let_def)
  with exact(3) have returned: "(fst (analyzeImage env file customPrompt w) \<noteq> None) =
       (\<exists>base64Image s.
          convertToBase64 env compressedFile = Inr base64Image
          \<and> analyzeImageWithGemini (env_conv env) (env_api_key env) (env_fetch env)
               base64Image (file_type compressedFile) customPrompt = Inr (Str s))"
    by simp
  from calls update returned show ?thesis
    unfolding Let_def compressedFile_def by (intro conjI)
qed

text \<open>
  A JPEG of 3000000 bytes whose image does not decode: the compression is called and
  rejects, the encoder and the service are called with the original file and its type,
  and the run returns a result. A PNG of 512000 bytes is encoded and analysed without any
  call of the compressor.
\<close>

theorem compression_threshold_witness:
  "run_calls image_fails example_jpeg None initial_world
     = [Call_compressImage example_jpeg, Call_convertToBase64 example_jpeg,
        Call_analyzeImageWithGemini ''iVBORw0KGgo='' ''image/jpeg'' None]
   \<and> fst (analyzeImage image_fails example_jpeg None initial_world) \<noteq> None
   \<and> run_calls example_env example_png None initial_world
     = [Call_convertToBase64 example_png,
        Call_analyzeImageWithGemini ''iVBORw0KGgo='' ''image/png'' None]"
proof -
  have valid: "isValid (validateImageFile example_jpeg)" "isValid (validateImageFile example_png)"
    by (simp_all add: run_defs)
  have rejects: "fst (compressImage image_fails example_jpeg 1920 0.8 initial_world)
      = Inl (OtherError ''Failed to load image for compression'')"
    by (simp add: run_defs)
  have sizes: "2 * 1024 * 1024 < file_size example_jpeg" "\<not> 2 * 1024 * 1024 < file_size example_png"
    by (simp_all add: example_jpeg_def example_png_def)
  have encoded: "convertToBase64 image_fails example_jpeg = Inr ''iVBORw0KGgo=''"
    "convertToBase64 example_env example_png = Inr ''iVBORw0KGgo=''"
    by (simp_all add: run_defs)
  have answered: "analyzeImageWithGemini (env_conv image_fails) (env_api_key image_fails)
      (env_fetch image_fails) ''iVBORw0KGgo='' (file_type example_jpeg) None = Inr (Str ''Good spread'')"
    by (simp add: run_defs)
  from compression_threshold [OF valid(1), of image_fails initial_world None initial_world]
    rejects sizes(1) encoded(1) answered
  have first: "run_calls image_fails example_jpeg None initial_world
     = [Call_compressImage example_jpeg, Call_convertToBase64 example_jpeg,
        Call_analyzeImageWithGemini ''iVBORw0KGgo='' ''image/jpeg'' None]
   \<and> fst (analyzeImage image_fails example_jpeg None initial_world) \<noteq> None"
    by (simp add: Let_def example_jpeg_def)
  from compression_threshold [OF valid(2), of example_env initial_world None initial_world]
    sizes(2) encoded(2)
  have second: "run_calls example_env example_png None initial_world
     = [Call_convertToBase64 example_png,
        Call_analyzeImageWithGemini ''iVBORw0KGgo='' ''image/png'' None]"
    by (simp add: Let_def example_png_def)
  from first second show ?thesis by simp
qed

section \<open>The progress of a run\<close>

text \<open>
  Claim C7, amended. The percent values that a run publishes are 0, 20, 40, 60, 90, 100
  when it succeeds. When it fails they are an initial part of 0, 20, 40, 60, 90 followed
  by the terminal Error update, which carries percent 0. So the values are
  non-decreasing up to, and not including, a terminal Error update, and over the whole
  run when it ends in Complete.
\<close>

theorem percent_monotone_until_error:
  "(case fst (analyzeImage env file customPrompt w) of
      Some result \<Rightarrow>
        map progress (run_updates env file customPrompt w) = [0, 20, 40, 60, 90, 100]
    | None \<Rightarrow>
        map progress (run_updates env file customPrompt w)
          \<in> {[0, 0], [0, 20, 40, 0], [0, 20, 40, 60, 0], [0, 20, 40, 60, 90, 0]}
        \<and> status (last (run_updates env file customPrompt w)) = Error)
   \<and> sorted (butlast (map progress (run_updates env file customPrompt w)))
   \<and> (fst (analyzeImage env file customPrompt w) \<noteq> None
        \<longrightarrow> sorted (map progress (run_updates env file customPrompt w)))"
  using run_updates_cases [of env "file" customPrompt w]
  by (elim disjE exE conjE) simp_all

text \<open>The successful example run publishes 0, 20, 40, 60, 90, 100.\<close>

theorem percent_monotone_until_error_witness:
  "map progress (run_updates example_env example_png None initial_world) = [0, 20, 40, 60, 90, 100]
   \<and> sorted (map progress (run_updates example_env example_png None initial_world))"
proof -
  have "fst (analyzeImage example_env example_png None initial_world) \<noteq> None"
    by (simp add: run_defs)
  with percent_monotone_until_error [of example_env example_png None initial_world]
  show ?thesis by auto
qed

text \<open>
  As the claim states it, the percent never decreases up to the terminal update, Error
  included. A run whose read is aborted publishes 0, 20, 40 and then 0.
\<close>

theorem percent_drops_on_error:
  "map progress (run_updates reader_aborts example_png None initial_world) = [0, 20, 40, 0]
   \<and> \<not> sorted (map progress (run_updates reader_aborts example_png None initial_world))"
proof -
  have "map progress (run_updates reader_aborts example_png None initial_world) = [0, 20, 40, 0]"
    by (simp add: run_updates_def run_defs)
  then show ?thesis by simp
qed





section \<open>Discarded results and their object URLs\<close>

lemma discard_keeps_urls:
  "blob_urls (removeResult rid w) = blob_urls w" "blob_urls (clearResults w) = blob_urls w"
  by (simp_all add: removeResult_def clearResults_def)

text \<open>
  Claim C9 says that the object URL of a discarded result is revoked. The code does not
  revoke it: after the successful example run the one result has the id 1700000000000
  and the image URL blob:0; removing it by id, or clearing the list, empties the list
  and leaves blob:0 among the live object URLs.
\<close>

theorem discarded_result_keeps_object_url:
  "map imageUrl (results (snd (analyzeImage example_env example_png None initial_world))) = [''blob:0'']
   \<and> map result_id (results (snd (analyzeImage example_env example_png None initial_world)))
       = [''1700000000000'']
   \<and> results (removeResult ''1700000000000''
        (snd (analyzeImage example_env example_png None initial_world))) = []
   \<and> ''blob:0'' \<in> blob_urls (removeResult ''1700000000000''
        (snd (analyzeImage example_env example_png None initial_world)))
   \<and> results (clearResults (snd (analyzeImage example_env example_png None initial_world))) = []
   \<and> ''blob:0'' \<in> blob_urls (clearResults (snd (analyzeImage example_env example_png None initial_world)))"
proof -
  have "map imageUrl (results (snd (analyzeImage example_env example_png None initial_world))) = [''blob:0'']
    \<and> map result_id (results (snd (analyzeImage example_env example_png None initial_world)))
        = [''1700000000000'']
    \<and> ''blob:0'' \<in> blob_urls (snd (analyzeImage example_env example_png None initial_world))"
    by (simp add: run_defs decimal.simps digit_char_def)
  then show ?thesis
    by (auto simp: removeResult_def clearResults_def map_eq_Cons_conv)
qed

section \<open>Properties of double-precision rounding\<close>

lemma round_half_even_bounds:
  assumes "of_int a \<le> x" "x \<le> of_int b"
  shows "a \<le> round_half_even x \<and> round_half_even x \<le> b"
proof -
  have lo: "a \<le> \<lfloor>x\<rfloor>" using assms(1) by (simp add: le_floor_iff)
  have hi: "\<lfloor>x\<rfloor> \<le> b" using assms(2) by (simp add: floor_le_iff)
  have ge: "\<lfloor>x\<rfloor> \<le> round_half_even x"
    by (simp add: round_half_even_def Let_def)
  have "round_half_even x \<le> b"
  proof (cases "\<lfloor>x\<rfloor> = b")
    case True
    with assms(2) have "x = of_int b" 
      using of_int_floor_le [of x] by linarith
    then show ?thesis by (simp add: round_half_even_def Let_def)
  next
    case False
    with hi have "\<lfloor>x\<rfloor> + 1 \<le> b" by simp
    then show ?thesis by (simp add: round_half_even_def Let_def)
  qed
  with lo ge show ?thesis by simp
qed

lemma round_half_even_down:
  assumes "of_int f \<le> x" "x < of_int f + 1 / 2"
  shows "round_half_even x = f"
proof -
  have "\<lfloor>x\<rfloor> = f" using assms by (simp add: floor_eq_iff) 
  with assms show ?thesis by (simp add: round_half_even_def Let_def)
qed

lemma double_quantum_pos: "0 < double_quantum x"
  by (simp add: double_quantum_def)

lemma double_exponent_eq:
  assumes "x \<noteq> 0" "2 powr of_int e \<le> \<bar>x\<bar>" "\<bar>x\<bar> < 2 powr (of_int e + 1)" "- 1022 \<le> e"
  shows "double_exponent x = e"
proof -
  have "\<lfloor>log 2 \<bar>x\<bar>\<rfloor> = e"
    using assms by (simp add: floor_log_eq_powr_iff)
  with assms(4) show ?thesis by (simp add: double_exponent_def)
qed

lemma nearest_double_bounds:
  assumes "x \<noteq> 0" "of_int a * double_quantum x \<le> x" "x \<le> of_int b * double_quantum x"
  shows "of_int a * double_quantum x \<le> nearest_double x \<and> nearest_double x \<le> of_int b * double_quantum x"
proof -
  have q: "0 < double_quantum x" by (rule double_quantum_pos)
  from assms(2) q have "of_int a \<le> x / double_quantum x" by (simp add: pos_le_divide_eq)
  moreover from assms(3) q have "x / double_quantum x \<le> of_int b" by (simp add: pos_divide_le_eq)
  ultimately have "a \<le> round_half_even (x / double_quantum x) \<and> round_half_even (x / double_quantum x) \<le> b"
    by (rule round_half_even_bounds)
  then have "of_int a \<le> (of_int (round_half_even (x / double_quantum x)) :: real)"
    "(of_int (round_half_even (x / double_quantum x)) :: real) \<le> of_int b"
    by simp_all
  with q assms(1) show ?thesis
    by (simp add: nearest_double_def mult_right_mono)
qed



lemma nearest_double_eval:
  assumes "x \<noteq> 0" "2 powr of_int e \<le> \<bar>x\<bar>" "\<bar>x\<bar> < 2 powr (of_int e + 1)" "- 1022 \<le> e"
    and "round_half_even (x / 2 powr of_int (e - 52)) = n"
  shows "nearest_double x = of_int n * 2 powr of_int (e - 52)"
  using assms double_exponent_eq [of x e] by (simp add: nearest_double_def double_quantum_def)

lemma round_half_even_close: "\<bar>of_int (round_half_even x) - x\<bar> \<le> 1 / 2"
proof -
  have "of_int \<lfloor>x\<rfloor> \<le> x" "x < of_int \<lfloor>x\<rfloor> + 1"
    by linarith+
  then show ?thesis
    by (auto simp: round_half_even_def Let_def)
qed

lemma round_half_even_int: "round_half_even (of_int k) = k"
  by (simp add: round_half_even_def Let_def)

lemma double_exponent_normal:
  assumes "2 powr (- 1022) \<le> \<bar>x\<bar>"
  shows "2 powr of_int (double_exponent x) \<le> \<bar>x\<bar>"
proof -
  have pos: "0 < \<bar>x\<bar>"
    using assms powr_gt_zero [of 2 "- 1022"] by linarith
  have "- 1022 \<le> log 2 \<bar>x\<bar>"
    using assms pos by (simp add: le_log_iff)
  then have "- 1022 \<le> \<lfloor>log 2 \<bar>x\<bar>\<rfloor>"
    by (simp add: le_floor_iff)
  then have e: "double_exponent x = \<lfloor>log 2 \<bar>x\<bar>\<rfloor>"
    by (simp add: double_exponent_def)
  have "2 powr of_int \<lfloor>log 2 \<bar>x\<bar>\<rfloor> \<le> \<bar>x\<bar>"
    using pos by (subst le_log_iff [symmetric]) simp_all
  with e show ?thesis by simp
qed

lemma nearest_double_error:
  assumes "2 powr (- 1022) \<le> \<bar>x\<bar>"
  shows "\<bar>nearest_double x - x\<bar> \<le> \<bar>x\<bar> / 2 ^ 53"
proof -
  let ?q = "double_quantum x"
  have q: "0 < ?q" by (rule double_quantum_pos)
  have nz: "x \<noteq> 0"
    using assms powr_gt_zero [of 2 "- 1022"] by auto
  have "\<bar>nearest_double x - x\<bar> = \<bar>of_int (round_half_even (x / ?q)) - x / ?q\<bar> * ?q"
  proof -
    have "nearest_double x - x = (of_int (round_half_even (x / ?q)) - x / ?q) * ?q"
      using q nz by (simp add: nearest_double_def field_simps)
    then show ?thesis
      using q by (simp add: abs_mult)
  qed
  also have "\<dots> \<le> 1 / 2 * ?q"
    using q round_half_even_close [of "x / ?q"] by (intro mult_right_mono) simp_all
  also have "?q = 2 powr of_int (double_exponent x) / 2 ^ 52"
    by (simp add: double_quantum_def powr_diff)
  also have "1 / 2 * (2 powr of_int (double_exponent x) / 2 ^ 52) \<le> 1 / 2 * (\<bar>x\<bar> / 2 ^ 52)"
    using double_exponent_normal [OF assms] by (intro mult_left_mono divide_right_mono) simp_all
  finally show ?thesis by simp
qed


lemma normal_range: "1 / 2 ^ 32 \<le> \<bar>x :: real\<bar> \<Longrightarrow> 2 powr (- 1022) \<le> \<bar>x\<bar>"
proof -
  assume a: "1 / 2 ^ 32 \<le> \<bar>x\<bar>"
  have "(2::real) powr (- 1022) \<le> 2 powr (- 32)"
    by (rule powr_mono) simp_all
  also have "\<dots> = 1 / 2 ^ 32"
    by (simp add: powr_minus inverse_eq_divide)
  finally show ?thesis using a by linarith
qed

lemma nearest_double_rel:
  assumes "1 / 2 ^ 32 \<le> x"
  shows "x * (1 - 1 / 2 ^ 53) \<le> nearest_double x" "nearest_double x \<le> x * (1 + 1 / 2 ^ 53)"
proof -
  have "(0::real) < 1 / 2 ^ 32" by simp
  with assms have pos: "0 < x" by linarith
  then have "1 / 2 ^ 32 \<le> \<bar>x\<bar>" using assms by simp
  from nearest_double_error [OF normal_range [OF this]] pos
  have "\<bar>nearest_double x - x\<bar> \<le> x / 2 ^ 53" by simp
  then have "nearest_double x - x \<le> x / 2 ^ 53" "x - nearest_double x \<le> x / 2 ^ 53"
    by linarith+
  then show "x * (1 - 1 / 2 ^ 53) \<le> nearest_double x"
    "nearest_double x \<le> x * (1 + 1 / 2 ^ 53)"
    by (simp_all only: right_diff_distrib distrib_left mult_1_right times_divide_eq_right)
qed

lemma two_roundings:
  fixes x p y :: real
  assumes "0 \<le> x" "x \<le> 2 ^ 31"
    and "x * (1 - 1 / 2 ^ 53) \<le> p" "p \<le> x * (1 + 1 / 2 ^ 53)"
    and "p * (1 - 1 / 2 ^ 53) \<le> y" "y \<le> p * (1 + 1 / 2 ^ 53)"
  shows "x - 1 / 2 ^ 20 \<le> y" "y \<le> x + 1 / 2 ^ 20"
proof -
  define u :: real where "u = 1 / 2 ^ 53"
  have u: "0 \<le> u" "0 \<le> 1 - u" "0 \<le> 1 + u"
    by (simp_all add: u_def)
  have "y \<le> p * (1 + u)" using assms(6) by (simp add: u_def)
  also have "p * (1 + u) \<le> x * (1 + u) * (1 + u)"
    using assms(4) u(3) unfolding u_def by (intro mult_right_mono) simp_all
  also have "x * (1 + u) * (1 + u) = x + x * (2 * u + u * u)"
    by (simp add: algebra_simps)
  also have "x * (2 * u + u * u) \<le> 2 ^ 31 * (2 * u + u * u)"
    using assms(2) u(1) by (intro mult_right_mono) simp_all
  also have "(2::real) ^ 31 * (2 * u + u * u) \<le> 1 / 2 ^ 20"
    by (simp add: u_def)
  finally show "y \<le> x + 1 / 2 ^ 20" by simp
  have "x - x * (2 * u) \<le> x - x * (2 * u) + x * (u * u)"
    using assms(1) u(1) by simp
  also have "\<dots> = x * (1 - u) * (1 - u)"
    by (simp add: algebra_simps)
  also have "\<dots> \<le> p * (1 - u)"
    using assms(3) u(2) unfolding u_def by (intro mult_right_mono) simp_all
  also have "\<dots> \<le> y" using assms(5) by (simp add: u_def)
  finally have "x - x * (2 * u) \<le> y" .
  moreover have "x * (2 * u) \<le> 2 ^ 31 * (2 * u)"
    using assms(2) u(1) by (intro mult_right_mono) simp_all
  moreover have "(2::real) ^ 31 * (2 * u) \<le> 1 / 2 ^ 20"
    by (simp add: u_def)
  ultimately show "x - 1 / 2 ^ 20 \<le> y" by linarith
qed

lemma double_exponent_less:
  assumes "x \<noteq> 0" "\<bar>x\<bar> < 2 powr of_int k" "- 1022 < k"
  shows "double_exponent x < k"
proof -
  have "log 2 \<bar>x\<bar> < of_int k"
    using assms(1,2) by (simp add: log_less_iff)
  then have "\<lfloor>log 2 \<bar>x\<bar>\<rfloor> < k"
    by (simp add: floor_less_iff)
  with assms(3) show ?thesis
    by (simp add: double_exponent_def)
qed

lemma grid_bounds:
  assumes "x \<noteq> 0" "double_exponent x + int j \<le> 52"
    and "of_int a / 2 ^ j \<le> x" "x \<le> of_int b / 2 ^ j"
  shows "of_int a / 2 ^ j \<le> nearest_double x \<and> nearest_double x \<le> of_int b / 2 ^ j"
proof -
  define m where "m = nat (52 - double_exponent x - int j)"
  have m: "int m = 52 - double_exponent x - int j"
    using assms(2) by (simp add: m_def)
  have "double_quantum x = 2 powr (- of_int (int m + int j))"
    by (simp add: double_quantum_def m)
  also have "\<dots> = 1 / 2 ^ (m + j)"
    by (simp add: powr_minus powr_realpow inverse_eq_divide flip: of_nat_add)
  finally have q: "double_quantum x = 1 / 2 ^ (m + j)" .
  have grid: "of_int (c * 2 ^ m) * double_quantum x = of_int c / 2 ^ j" for c :: int
    by (simp add: q power_add)
  have "of_int (a * 2 ^ m) * double_quantum x \<le> nearest_double x
      \<and> nearest_double x \<le> of_int (b * 2 ^ m) * double_quantum x"
  proof (rule nearest_double_bounds)
    show "x \<noteq> 0" by fact
    show "of_int (a * 2 ^ m) * double_quantum x \<le> x"
      using assms(3) by (simp only: grid)
    show "x \<le> of_int (b * 2 ^ m) * double_quantum x"
      using assms(4) by (simp only: grid)
  qed
  then show ?thesis
    by (simp only: grid)
qed

lemma nearest_double_dyadic:
  assumes "\<bar>k\<bar> < 2 ^ 53" "j \<le> 1074"
  shows "nearest_double (of_int k / 2 ^ j) = of_int k / 2 ^ j"
proof (cases "k = 0")
  case True
  then show ?thesis by (simp add: nearest_double_def)
next
  case False
  define x :: real where "x = of_int k / 2 ^ j"
  have nz: "x \<noteq> 0" using False by (simp add: x_def)
  have "\<bar>x\<bar> = of_int \<bar>k\<bar> / 2 ^ j"
    by (simp add: x_def abs_divide)
  also have "\<dots> < 2 ^ 53 / 2 ^ j"
  proof -
    have "(of_int \<bar>k\<bar> :: real) < of_int (2 ^ 53)"
      using assms(1) by (simp only: of_int_less_iff)
    then show ?thesis by (simp add: divide_strict_right_mono)
  qed
  also have "\<dots> = 2 powr of_int (53 - int j)"
    by (simp add: powr_diff powr_realpow)
  finally have "\<bar>x\<bar> < 2 powr of_int (53 - int j)" .
  then have "double_exponent x < 53 - int j"
    using nz assms(2) by (intro double_exponent_less) simp_all
  then have "double_exponent x + int j \<le> 52" by simp
  from grid_bounds [OF nz this, of k k]
  show ?thesis by (simp add: x_def)
qed

lemma nearest_double_int:
  assumes "\<bar>k\<bar> < 2 ^ 53"
  shows "nearest_double (of_int k) = of_int k"
  using nearest_double_dyadic [OF assms, of 0] by simp


section \<open>Properties of the annotation surface\<close>

lemma sqrt_le_15: "(sqrt v \<le> 15) = (v \<le> 225)"
proof -
  have "sqrt 225 = 15"
    using real_sqrt_abs [of 15] by simp
  then show ?thesis
    using real_sqrt_le_iff [of v 225] by simp
qed

lemma Math_sqrt_pixels:
  assumes "0 \<le> n" "n < 2 ^ 53"
  shows "(Math_sqrt (of_int n) \<le> 15) = (n \<le> 225)"
proof -
  define x :: real where "x = sqrt (of_int n)"
  consider "n = 0" | "1 \<le> n" "n \<le> 225" | "226 \<le> n"
    using assms(1) by linarith
  then show ?thesis
  proof cases
    case 1
    then show ?thesis by (simp add: Math_sqrt_def nearest_double_def)
  next
    case 2
    have lo: "1 \<le> x"
      using 2(1) by (simp add: x_def)
    have hi: "x \<le> 15"
    proof -
      have "(of_int n :: real) \<le> 225" using 2(2) by simp
      then show ?thesis by (simp add: x_def sqrt_le_15)
    qed
    have nz: "x \<noteq> 0" using lo by simp
    have "\<bar>x\<bar> < 2 powr of_int 4"
      using lo hi by simp
    then have "double_exponent x < 4"
      using nz by (intro double_exponent_less) simp_all
    then have "double_exponent x + int 0 \<le> 52" by simp
    from grid_bounds [OF nz this, of 1 15] lo hi
    have "nearest_double x \<le> 15" by simp
    with 2(2) show ?thesis by (simp add: Math_sqrt_def x_def)
  next
    case 3
    have lo: "481 / 32 \<le> x"
    proof -
      have "(481 / 32 :: real) = sqrt ((481 / 32)\<^sup>2)" by simp
      also have "\<dots> \<le> sqrt (of_int n)"
      proof (rule real_sqrt_le_mono)
        have "((481 / 32)\<^sup>2 :: real) \<le> 226" by (simp add: power2_eq_square)
        also have "\<dots> \<le> of_int n" using 3 by simp
        finally show "((481 / 32)\<^sup>2 :: real) \<le> of_int n" .
      qed
      finally show ?thesis by (simp add: x_def)
    qed
    have hi: "x < 2 ^ 27"
    proof -
      have "(of_int n :: real) < of_int (2 ^ 53)"
        using assms(2) by (simp only: of_int_less_iff)
      also have "\<dots> \<le> (2 ^ 27)\<^sup>2" by simp
      finally have "sqrt (of_int n) < sqrt ((2 ^ 27)\<^sup>2)"
        by (simp only: real_sqrt_less_iff)
      then show ?thesis by (simp add: x_def)
    qed
    have nz: "x \<noteq> 0" using lo by simp
    have "\<bar>x\<bar> < 2 powr of_int 27"
      using lo hi by simp
    then have "double_exponent x < 27"
      using nz by (intro double_exponent_less) simp_all
    then have "double_exponent x + int 5 \<le> 52" by simp
    from grid_bounds [OF nz this, of 481 "2 ^ 32"] lo hi
    have "481 / 32 \<le> nearest_double x" by simp
    then have "\<not> nearest_double x \<le> 15" by simp
    with 3 show ?thesis by (simp add: Math_sqrt_def x_def)
  qed
qed

lemma square_bound:
  fixes i :: int
  assumes "\<bar>i\<bar> < 2 ^ 26"
  shows "i\<^sup>2 < 2 ^ 52"
proof -
  have "i\<^sup>2 = \<bar>i\<bar> * \<bar>i\<bar>"
    by (simp add: power2_eq_square abs_mult_self_eq)
  also have "\<dots> < 2 ^ 26 * 2 ^ 26"
    using assms by (intro mult_strict_mono') simp_all
  finally show ?thesis by simp
qed

lemma computed_distance_pixels:
  fixes a b c d :: real
  assumes "a \<in> \<int>" "b \<in> \<int>" "c \<in> \<int>" "d \<in> \<int>"
    and "\<bar>a\<bar> < 2 ^ 25" "\<bar>b\<bar> < 2 ^ 25" "\<bar>c\<bar> < 2 ^ 25" "\<bar>d\<bar> < 2 ^ 25"
  shows "(Math_sqrt (nearest_double (pow2 (nearest_double (a - c)) + pow2 (nearest_double (b - d)))) \<le> 15)
     = (sqrt ((a - c)\<^sup>2 + (b - d)\<^sup>2) \<le> 15)"
proof -
  from assms(1-4) obtain i j k l :: int where
    ints: "a = of_int i" "b = of_int j" "c = of_int k" "d = of_int l"
    by (auto elim!: Ints_cases)
  have small: "\<bar>i\<bar> < 2 ^ 25" "\<bar>j\<bar> < 2 ^ 25" "\<bar>k\<bar> < 2 ^ 25" "\<bar>l\<bar> < 2 ^ 25"
    using assms(5-8) unfolding ints
    by (simp_all only: of_int_abs [symmetric] of_int_less_numeral_power_cancel_iff)
  define u v where "u = i - k" and "v = j - l"
  have uv: "\<bar>u\<bar> < 2 ^ 26" "\<bar>v\<bar> < 2 ^ 26"
    using small by (simp_all add: u_def v_def)
  then have "\<bar>u\<bar> < 2 ^ 53" "\<bar>v\<bar> < 2 ^ 53" by simp_all
  then have du: "nearest_double (a - c) = of_int u" and dv: "nearest_double (b - d) = of_int v"
    using nearest_double_int [of u] nearest_double_int [of v]
    by (simp_all add: ints u_def v_def)
  have sq: "u\<^sup>2 < 2 ^ 52" "v\<^sup>2 < 2 ^ 52"
    by (rule square_bound [OF uv(1)], rule square_bound [OF uv(2)])
  have "\<bar>u\<^sup>2\<bar> < 2 ^ 53" "\<bar>v\<^sup>2\<bar> < 2 ^ 53"
    using sq by simp_all
  then have pu: "pow2 (of_int u) = of_int (u\<^sup>2)" and pv: "pow2 (of_int v) = of_int (v\<^sup>2)"
    using nearest_double_int [of "u\<^sup>2"] nearest_double_int [of "v\<^sup>2"]
    by (simp_all add: pow2_def)
  define n where "n = u\<^sup>2 + v\<^sup>2"
  have n: "0 \<le> n" "n < 2 ^ 53"
    using sq by (simp_all add: n_def)
  then have "\<bar>n\<bar> < 2 ^ 53" by simp
  then have sum: "nearest_double (of_int (u\<^sup>2) + of_int (v\<^sup>2)) = of_int n"
    using nearest_double_int [of n] by (simp add: n_def)
  have "(Math_sqrt (of_int n) \<le> 15) = (n \<le> 225)"
    using n by (rule Math_sqrt_pixels)
  also have "\<dots> = ((of_int n :: real) \<le> 225)"
    by simp
  also have "\<dots> = (sqrt (of_int n) \<le> 15)"
    by (simp only: sqrt_le_15)
  finally have root: "(Math_sqrt (of_int n) \<le> 15) = (sqrt (of_int n) \<le> 15)" .
  have computed: "nearest_double (pow2 (nearest_double (a - c)) + pow2 (nearest_double (b - d)))
      = of_int n"
    by (simp only: du dv pu pv sum)
  have exact: "(a - c)\<^sup>2 + (b - d)\<^sup>2 = of_int n"
    by (simp add: ints n_def u_def v_def)
  from root show ?thesis
    by (simp only: computed exact)
qed

lemma nearest_double_above_225: "nearest_double (225 + 1 / 2 ^ 60) = 225"
proof -
  have "nearest_double (225 + 1 / 2 ^ 60) = of_int 7916483719987200 * 2 powr of_int (7 - 52)"
  proof (rule nearest_double_eval)
    show "round_half_even ((225 + 1 / 2 ^ 60) / 2 powr of_int (7 - 52)) = 7916483719987200"
      by (simp add: round_half_even_def Let_def powr_minus)
  qed (simp_all add: powr_minus)
  also have "\<dots> = 225"
    by (simp add: powr_minus)
  finally show ?thesis .
qed

lemma findIndex_from_none:
  "(findIndex_from P vs k = - 1) = (\<forall>v \<in> set vs. \<not> P v)"
  by (induction vs arbitrary: k) auto

lemma findIndex_from_first:
  "\<exists>v \<in> set vs. P v \<Longrightarrow>
   \<exists>i < length vs. findIndex_from P vs k = int (k + i) \<and> P (vs ! i) \<and> (\<forall>j < i. \<not> P (vs ! j))"
proof (induction vs arbitrary: k)
  case Nil
  then show ?case by simp
next
  case (Cons v vs)
  show ?case
  proof (cases "P v")
    case True
    then show ?thesis by (intro exI [of _ 0]) simp
  next
    case False
    with Cons.prems have "\<exists>v \<in> set vs. P v" by simp
    from Cons.IH [OF this, of "Suc k"] obtain i where
      i: "i < length vs" "findIndex_from P vs (Suc k) = int (Suc k + i)" "P (vs ! i)"
         "\<forall>j < i. \<not> P (vs ! j)" by blast
    have "\<forall>j < Suc i. \<not> P ((v # vs) ! j)"
      using False i(4) by (auto simp: nth_Cons split: nat.split)
    with i False show ?thesis by (intro exI [of _ "Suc i"]) simp
  qed
qed

lemma filter_index_from_keep:
  "m < k \<Longrightarrow> filter_index_from (\<lambda>_ index. int index \<noteq> int m) vs k = vs"
  by (induction vs arbitrary: k) auto

lemma filter_index_from_drop:
  "i < length vs \<Longrightarrow>
   filter_index_from (\<lambda>_ index. int index \<noteq> int (k + i)) vs k = take i vs @ drop (Suc i) vs"
proof (induction vs arbitrary: k i)
  case Nil
  then show ?case by simp
next
  case (Cons v vs)
  show ?case
  proof (cases i)
    case 0
    then show ?thesis using filter_index_from_keep [of k "Suc k" vs] by simp
  next
    case (Suc i')
    with Cons.prems have "i' < length vs" by simp
    from Cons.IH [OF this, of "Suc k"] show ?thesis using Suc by simp
  qed
qed


lemma click_eq:
  "click (Some rect) currentTool clientX clientY now points =
     (let px = nearest_double (clientX - rect_left rect);
          py = nearest_double (clientY - rect_top rect);
          hit = (\<lambda>p. Math_sqrt (nearest_double (pow2 (nearest_double (point_x p - px))
                                                 + pow2 (nearest_double (point_y p - py)))) \<le> 15)
      in if findIndex hit points \<noteq> - 1 then
           filter_index (\<lambda>_ index. int index \<noteq> findIndex hit points) points
         else points @ [\<lparr>point_x = px, point_y = py, point_type = currentTool,
                           point_id = decimal now\<rparr>])"
  by (simp add: click_def handleCanvasClick_def Let_def)

lemma click_first_marker:
  assumes "nearest_double (clientX - rect_left rect) = px"
    and "nearest_double (clientY - rect_top rect) = py"
  shows "click (Some rect) currentTool clientX clientY now [] =
           [\<lparr>point_x = px, point_y = py, point_type = currentTool, point_id = decimal now\<rparr>]"
    and "click (Some rect) currentTool clientX clientY now [p] =
           (if Math_sqrt (nearest_double (pow2 (nearest_double (point_x p - px))
                                          + pow2 (nearest_double (point_y p - py)))) \<le> 15
            then []
            else [p, \<lparr>point_x = px, point_y = py, point_type = currentTool,
                       point_id = decimal now\<rparr>])"
  using assms by (simp_all add: click_eq Let_def findIndex_def filter_index_def)

text \<open>
  Claim C1, amended. A click on the mounted canvas, handled with the marker list it was
  rendered with, all coordinates of magnitude at most \<open>2 ^ 500\<close> so that no intermediate
  result overflows. The canvas coordinates \<open>(px, py)\<close> of the click are the doubles
  \<open>clientX - left\<close> and \<open>clientY - top\<close>, and a marker is hit when its distance from
  \<open>(px, py)\<close>, computed in double arithmetic (each difference, square, sum and the root
  rounded to the nearest double), is at most 15. If some marker is hit, the result is the
  list without its first hit marker (one marker fewer, none added); otherwise the result
  is the list with one new marker of the selected kind appended at \<open>(px, py)\<close>. When the
  click and a marker lie at whole-pixel coordinates of magnitude below \<open>2 ^ 25\<close>, the
  marker is hit exactly when its Euclidean distance from the click is at most 15. The
  selected kind starts as success. From the empty list a click at canvas coordinates
  (100,100) adds one marker and a click at (101,101) then removes it.
\<close>

theorem handleCanvasClick_toggle:
  assumes "\<bar>clientX\<bar> \<le> 2 ^ 500" "\<bar>clientY\<bar> \<le> 2 ^ 500"
    and "\<bar>rect_left rect\<bar> \<le> 2 ^ 500" "\<bar>rect_top rect\<bar> \<le> 2 ^ 500"
    and "\<forall>p \<in> set points. \<bar>point_x p\<bar> \<le> 2 ^ 500 \<and> \<bar>point_y p\<bar> \<le> 2 ^ 500"
  shows "(let px = nearest_double (clientX - rect_left rect);
        py = nearest_double (clientY - rect_top rect);
        hit = (\<lambda>p. Math_sqrt (nearest_double (pow2 (nearest_double (point_x p - px))
                                               + pow2 (nearest_double (point_y p - py)))) \<le> 15);
        result = click (Some rect) currentTool clientX clientY now points
    in (if \<exists>p \<in> set points. hit p then
          \<exists>i < length points. hit (points ! i) \<and> (\<forall>j < i. \<not> hit (points ! j))
            \<and> result = take i points @ drop (Suc i) points
            \<and> Suc (length result) = length points
        else
          result = points @ [\<lparr>point_x = px, point_y = py, point_type = currentTool,
                              point_id = decimal now\<rparr>])
     \<and> (px \<in> \<int> \<and> py \<in> \<int> \<and> \<bar>px\<bar> < 2 ^ 25 \<and> \<bar>py\<bar> < 2 ^ 25 \<longrightarrow>
          (\<forall>p \<in> set points.
             point_x p \<in> \<int> \<and> point_y p \<in> \<int> \<and> \<bar>point_x p\<bar> < 2 ^ 25 \<and> \<bar>point_y p\<bar> < 2 ^ 25 \<longrightarrow>
             hit p = (sqrt ((point_x p - px)\<^sup>2 + (point_y p - py)\<^sup>2) \<le> 15))))
   \<and> initial_currentTool = success
   \<and> (nearest_double (x1 - rect_left rect) = 100 \<and> nearest_double (y1 - rect_top rect) = 100
      \<and> nearest_double (x2 - rect_left rect) = 101 \<and> nearest_double (y2 - rect_top rect) = 101 \<longrightarrow>
        click (Some rect) initial_currentTool x1 y1 t1 []
          = [\<lparr>point_x = 100, point_y = 100, point_type = success, point_id = decimal t1\<rparr>]
      \<and> click (Some rect) tool2 x2 y2 t2
          [\<lparr>point_x = 100, point_y = 100, point_type = success, point_id = decimal t1\<rparr>] = [])"
proof -
  define px where "px = nearest_double (clientX - rect_left rect)"
  define py where "py = nearest_double (clientY - rect_top rect)"
  define hit :: "Point \<Rightarrow> bool"
    where "hit = (\<lambda>p. Math_sqrt (nearest_double (pow2 (nearest_double (point_x p - px))
                                               + pow2 (nearest_double (point_y p - py)))) \<le> 15)"
  define result where "result = click (Some rect) currentTool clientX clientY now points"
  have res: "result =
      (if findIndex hit points \<noteq> - 1 then
         filter_index (\<lambda>_ index. int index \<noteq> findIndex hit points) points
       else points @ [\<lparr>point_x = px, point_y = py, point_type = currentTool,
                         point_id = decimal now\<rparr>])"
    by (simp add: result_def click_eq Let_def hit_def px_def py_def)
  have general: "if \<exists>p \<in> set points. hit p then
         \<exists>i < length points. hit (points ! i) \<and> (\<forall>j < i. \<not> hit (points ! j))
           \<and> result = take i points @ drop (Suc i) points
           \<and> Suc (length result) = length points
       else
         result = points @ [\<lparr>point_x = px, point_y = py, point_type = currentTool,
                             point_id = decimal now\<rparr>]"
  proof (cases "\<exists>p \<in> set points. hit p")
    case True
    from findIndex_from_first [OF True, of 0] obtain i where
      i: "i < length points" "findIndex hit points = int i" "hit (points ! i)"
         "\<forall>j < i. \<not> hit (points ! j)"
      by (auto simp: findIndex_def)
    have "result = take i points @ drop (Suc i) points"
      using res i(1,2) filter_index_from_drop [of i points 0]
      by (simp add: filter_index_def)
    moreover from this have "Suc (length result) = length points"
      using i(1) by simp
    ultimately show ?thesis using True i by auto
  next
    case False
    then have "findIndex hit points = - 1"
      by (simp add: findIndex_def findIndex_from_none)
    with res False show ?thesis by simp
  qed
  have pixels: "px \<in> \<int> \<and> py \<in> \<int> \<and> \<bar>px\<bar> < 2 ^ 25 \<and> \<bar>py\<bar> < 2 ^ 25 \<longrightarrow>
          (\<forall>p \<in> set points.
             point_x p \<in> \<int> \<and> point_y p \<in> \<int> \<and> \<bar>point_x p\<bar> < 2 ^ 25 \<and> \<bar>point_y p\<bar> < 2 ^ 25 \<longrightarrow>
             hit p = (sqrt ((point_x p - px)\<^sup>2 + (point_y p - py)\<^sup>2) \<le> 15))"
    unfolding hit_def by (intro impI ballI computed_distance_pixels) simp_all
  have scenario: "click (Some rect) initial_currentTool x1 y1 t1 []
          = [\<lparr>point_x = 100, point_y = 100, point_type = success, point_id = decimal t1\<rparr>]
      \<and> click (Some rect) tool2 x2 y2 t2
          [\<lparr>point_x = 100, point_y = 100, point_type = success, point_id = decimal t1\<rparr>] = []"
    if at: "nearest_double (x1 - rect_left rect) = 100" "nearest_double (y1 - rect_top rect) = 100"
      "nearest_double (x2 - rect_left rect) = 101" "nearest_double (y2 - rect_top rect) = 101"
  proof -
    have "(Math_sqrt (nearest_double (pow2 (nearest_double (100 - 101))
                                      + pow2 (nearest_double (100 - 101)))) \<le> 15)
        = (sqrt ((100 - 101)\<^sup>2 + (100 - 101)\<^sup>2) \<le> 15)"
      by (rule computed_distance_pixels) simp_all
    also have "\<dots>"
      by (simp add: sqrt_le_15)
    finally have near: "Math_sqrt (nearest_double (pow2 (nearest_double (100 - 101))
                                      + pow2 (nearest_double (100 - 101)))) \<le> 15" .
    show ?thesis
      using near by (simp only: click_first_marker [OF at(1,2)] click_first_marker [OF at(3,4)]
          initial_currentTool_def Point.simps if_True simp_thms)
  qed
  have tool: "initial_currentTool = success"
    by (simp add: initial_currentTool_def)
  have two_clicks: "nearest_double (x1 - rect_left rect) = 100 \<and> nearest_double (y1 - rect_top rect) = 100
      \<and> nearest_double (x2 - rect_left rect) = 101 \<and> nearest_double (y2 - rect_top rect) = 101 \<longrightarrow>
        click (Some rect) initial_currentTool x1 y1 t1 []
          = [\<lparr>point_x = 100, point_y = 100, point_type = success, point_id = decimal t1\<rparr>]
      \<and> click (Some rect) tool2 x2 y2 t2
          [\<lparr>point_x = 100, point_y = 100, point_type = success, point_id = decimal t1\<rparr>] = []"
    using scenario by blast
  from general pixels have main: "let px = nearest_double (clientX - rect_left rect);
        py = nearest_double (clientY - rect_top rect);
        hit = (\<lambda>p. Math_sqrt (nearest_double (pow2 (nearest_double (point_x p - px))
                                               + pow2 (nearest_double (point_y p - py)))) \<le> 15);
        result = click (Some rect) currentTool clientX clientY now points
    in (if \<exists>p \<in> set points. hit p then
          \<exists>i < length points. hit (points ! i) \<and> (\<forall>j < i. \<not> hit (points ! j))
            \<and> result = take i points @ drop (Suc i) points
            \<and> Suc (length result) = length points
        else
          result = points @ [\<lparr>point_x = px, point_y = py, point_type = currentTool,
                              point_id = decimal now\<rparr>])
     \<and> (px \<in> \<int> \<and> py \<in> \<int> \<and> \<bar>px\<bar> < 2 ^ 25 \<and> \<bar>py\<bar> < 2 ^ 25 \<longrightarrow>
          (\<forall>p \<in> set points.
             point_x p \<in> \<int> \<and> point_y p \<in> \<int> \<and> \<bar>point_x p\<bar> < 2 ^ 25 \<and> \<bar>point_y p\<bar> < 2 ^ 25 \<longrightarrow>
             hit p = (sqrt ((point_x p - px)\<^sup>2 + (point_y p - py)\<^sup>2) \<le> 15)))"
    unfolding px_def py_def hit_def result_def Let_def by (rule conjI)
  show ?thesis
    by (rule conjI [OF main conjI [OF tool two_clicks]])
qed


text \<open>
  At a concrete list of three markers, a click at (52, 50) on a canvas at the origin hits
  the second and the third marker and removes the second; a click at (200, 200) hits none
  and appends a failure marker. On a canvas at (8, 16), a click at client coordinates
  (108, 116) adds a success marker at (100, 100), and a click at (109, 117) removes it.
\<close>

theorem handleCanvasClick_toggle_witness:
  "click (Some \<lparr>rect_left = 0, rect_top = 0\<rparr>) failure 52 50 7
     [\<lparr>point_x = 10, point_y = 10, point_type = success, point_id = ''1''\<rparr>,
      \<lparr>point_x = 50, point_y = 50, point_type = failure, point_id = ''2''\<rparr>,
      \<lparr>point_x = 55, point_y = 50, point_type = success, point_id = ''3''\<rparr>]
   = [\<lparr>point_x = 10, point_y = 10, point_type = success, point_id = ''1''\<rparr>,
      \<lparr>point_x = 55, point_y = 50, point_type = success, point_id = ''3''\<rparr>]
   \<and> click (Some \<lparr>rect_left = 0, rect_top = 0\<rparr>) failure 200 200 7
     [\<lparr>point_x = 10, point_y = 10, point_type = success, point_id = ''1''\<rparr>]
   = [\<lparr>point_x = 10, point_y = 10, point_type = success, point_id = ''1''\<rparr>,
      \<lparr>point_x = 200, point_y = 200, point_type = failure, point_id = ''7''\<rparr>]
   \<and> click (Some \<lparr>rect_left = 8, rect_top = 16\<rparr>) initial_currentTool 108 116 5 []
   = [\<lparr>point_x = 100, point_y = 100, point_type = success, point_id = ''5''\<rparr>]
   \<and> click (Some \<lparr>rect_left = 8, rect_top = 16\<rparr>) failure 109 117 6
     [\<lparr>point_x = 100, point_y = 100, point_type = success, point_id = ''5''\<rparr>] = []"
proof -
  let ?r = "\<lparr>rect_left = 0, rect_top = 0\<rparr>"
  let ?a = "\<lparr>point_x = 10, point_y = 10, point_type = success, point_id = ''1''\<rparr>"
  let ?b = "\<lparr>point_x = 50, point_y = 50, point_type = failure, point_id = ''2''\<rparr>"
  let ?c = "\<lparr>point_x = 55, point_y = 50, point_type = success, point_id = ''3''\<rparr>"
  let ?hit = "\<lambda>px py p. Math_sqrt (nearest_double (pow2 (nearest_double (point_x p - px))
                                               + pow2 (nearest_double (point_y p - py)))) \<le> 15"
  have d: "decimal 7 = ''7''" "decimal 5 = ''5''"
    by (simp_all add: decimal.simps digit_char_def)
  have at: "nearest_double 52 = 52" "nearest_double 50 = 50" "nearest_double 200 = 200"
    "nearest_double 100 = 100" "nearest_double 101 = 101"
    using nearest_double_int [of 52] nearest_double_int [of 50] nearest_double_int [of 200]
      nearest_double_int [of 100] nearest_double_int [of 101]
    by simp_all
  have pixel: "(52::real) \<in> \<int> \<and> (50::real) \<in> \<int> \<and> \<bar>52::real\<bar> < 2 ^ 25 \<and> \<bar>50::real\<bar> < 2 ^ 25"
    "(200::real) \<in> \<int> \<and> (200::real) \<in> \<int> \<and> \<bar>200::real\<bar> < 2 ^ 25 \<and> \<bar>200::real\<bar> < 2 ^ 25"
    by simp_all
  have range: "\<bar>52::real\<bar> \<le> 2 ^ 500" "\<bar>50::real\<bar> \<le> 2 ^ 500"
    "\<bar>rect_left ?r\<bar> \<le> 2 ^ 500" "\<bar>rect_top ?r\<bar> \<le> 2 ^ 500"
    "\<forall>p \<in> set [?a, ?b, ?c]. \<bar>point_x p\<bar> \<le> 2 ^ 500 \<and> \<bar>point_y p\<bar> \<le> 2 ^ 500"
    "\<bar>200::real\<bar> \<le> 2 ^ 500" "\<forall>p \<in> set [?a]. \<bar>point_x p\<bar> \<le> 2 ^ 500 \<and> \<bar>point_y p\<bar> \<le> 2 ^ 500"
    by simp_all
  note first_click = handleCanvasClick_toggle [where clientX = 52 and rect = ?r and clientY = 50
      and points = "[?a, ?b, ?c]" and currentTool = failure and now = 7,
      OF range(1-5), THEN conjunct1, unfolded Let_def DOMRect.simps diff_zero at]
  note exact = first_click [THEN conjunct2, THEN mp, OF pixel(1), THEN bspec, THEN mp]
  have "?hit 52 50 ?a = (sqrt ((point_x ?a - 52)\<^sup>2 + (point_y ?a - 50)\<^sup>2) \<le> 15)"
    by (rule exact) simp_all
  then have miss_a: "\<not> ?hit 52 50 ?a"
    by (simp add: sqrt_le_15 power2_eq_square)
  have "?hit 52 50 ?b = (sqrt ((point_x ?b - 52)\<^sup>2 + (point_y ?b - 50)\<^sup>2) \<le> 15)"
    by (rule exact) simp_all
  then have hit_b: "?hit 52 50 ?b"
    by (simp add: sqrt_le_15 power2_eq_square)
  have "\<exists>p \<in> set [?a, ?b, ?c]. ?hit 52 50 p"
    using hit_b by simp
  then obtain i where i: "i < length [?a, ?b, ?c]" "?hit 52 50 ([?a, ?b, ?c] ! i)"
      "\<forall>j < i. \<not> ?hit 52 50 ([?a, ?b, ?c] ! j)"
      "click (Some ?r) failure 52 50 7 [?a, ?b, ?c] = take i [?a, ?b, ?c] @ drop (Suc i) [?a, ?b, ?c]"
    using first_click [THEN conjunct1] by (simp only: if_True) blast
  have "i \<noteq> 0" using i(2) miss_a by (intro notI) simp
  moreover have "i \<noteq> 2"
  proof
    assume "i = 2"
    then have "(1::nat) < i" by simp
    with i(3) have "\<not> ?hit 52 50 ([?a, ?b, ?c] ! 1)" by blast
    with hit_b show False by simp
  qed
  moreover from i(1) have "i = 0 \<or> i = 1 \<or> i = 2"
    by (simp add: less_Suc_eq numeral_3_eq_3 eval_nat_numeral)
  ultimately have "i = 1" by blast
  with i(4) have first: "click (Some ?r) failure 52 50 7 [?a, ?b, ?c] = [?a, ?c]"
    by simp
  note second_click = handleCanvasClick_toggle [where clientX = 200 and rect = ?r
      and clientY = 200 and points = "[?a]" and currentTool = failure and now = 7,
      OF range(6,6,3,4,7), THEN conjunct1, unfolded Let_def DOMRect.simps diff_zero at]
  have "?hit 200 200 ?a = (sqrt ((point_x ?a - 200)\<^sup>2 + (point_y ?a - 200)\<^sup>2) \<le> 15)"
    by (rule second_click [THEN conjunct2, THEN mp, OF pixel(2), THEN bspec, THEN mp]) simp_all
  then have "\<not> ?hit 200 200 ?a"
    by (simp add: sqrt_le_15 power2_eq_square)
  then have "\<not> (\<exists>p \<in> set [?a]. ?hit 200 200 p)"
    by simp
  with second_click [THEN conjunct1] have second: "click (Some ?r) failure 200 200 7 [?a]
     = [?a, \<lparr>point_x = 200, point_y = 200, point_type = failure, point_id = ''7''\<rparr>]"
    by (simp only: if_False d append.simps)
  let ?s = "\<lparr>rect_left = 8, rect_top = 16\<rparr>"
  have range': "\<bar>0::real\<bar> \<le> 2 ^ 500" "\<bar>rect_left ?s\<bar> \<le> 2 ^ 500" "\<bar>rect_top ?s\<bar> \<le> 2 ^ 500"
    "\<forall>p \<in> set ([] :: Point list). \<bar>point_x p\<bar> \<le> 2 ^ 500 \<and> \<bar>point_y p\<bar> \<le> 2 ^ 500"
    by simp_all
  have "click (Some ?s) initial_currentTool 108 116 5 []
          = [\<lparr>point_x = 100, point_y = 100, point_type = success, point_id = decimal 5\<rparr>]
      \<and> click (Some ?s) failure 109 117 6
          [\<lparr>point_x = 100, point_y = 100, point_type = success, point_id = decimal 5\<rparr>] = []"
    using handleCanvasClick_toggle [where clientX = 0 and rect = ?s and clientY = 0
      and points = "[]" and ?x1.0 = 108 and ?y1.0 = 116 and ?x2.0 = 109 and ?y2.0 = 117
      and ?t1.0 = 5 and ?tool2.0 = failure and ?t2.0 = 6,
      OF range'(1,1,2,3,4), THEN conjunct2, THEN conjunct2]
    by (simp add: at)
  then have third: "click (Some ?s) initial_currentTool 108 116 5 []
          = [\<lparr>point_x = 100, point_y = 100, point_type = success, point_id = ''5''\<rparr>]"
    and fourth: "click (Some ?s) failure 109 117 6
          [\<lparr>point_x = 100, point_y = 100, point_type = success, point_id = ''5''\<rparr>] = []"
    by (simp_all only: d)
  from first second third fourth show ?thesis
    by (intro conjI)
qed

text \<open>
  As the claim states it, a marker is removed only when it lies within Euclidean distance
  15 of the click, and otherwise one is appended. The marker at (100, 100) lies farther
  than 15 from the click at \<open>(115, 100 + 2 ^ - 30)\<close>, yet the sum of the squares rounds to
  225, the computed distance is exactly 15, and the click removes the marker.
\<close>

theorem rounded_distance_removes:
  "click (Some \<lparr>rect_left = 0, rect_top = 0\<rparr>) success 115 (100 + 1 / 2 ^ 30) 7
     [\<lparr>point_x = 100, point_y = 100, point_type = success, point_id = ''1''\<rparr>] = []
   \<and> 15 < sqrt ((100 - 115)\<^sup>2 + (100 - (100 + 1 / 2 ^ 30))\<^sup>2)"
proof -
  let ?r = "\<lparr>rect_left = 0, rect_top = 0\<rparr>"
  let ?m = "\<lparr>point_x = 100, point_y = 100, point_type = success, point_id = ''1''\<rparr>"
  have x: "nearest_double (115 - rect_left ?r) = 115"
    using nearest_double_int [of 115] by simp
  have y: "nearest_double (100 + 1 / 2 ^ 30 - rect_top ?r) = 100 + 1 / 2 ^ 30"
    using nearest_double_dyadic [of 107374182401 30] by simp
  have dx: "nearest_double (point_x ?m - 115) = - 15"
    using nearest_double_int [of "- 15"] by simp
  have dy: "nearest_double (point_y ?m - (100 + 1 / 2 ^ 30)) = - (1 / 2 ^ 30)"
    using nearest_double_dyadic [of "- 1" 30] by simp
  have sx: "pow2 (- 15) = 225"
    using nearest_double_int [of 225] by (simp add: pow2_def)
  have sy: "pow2 (- (1 / 2 ^ 30)) = 1 / 2 ^ 60"
    using nearest_double_dyadic [of 1 60] by (simp add: pow2_def power2_eq_square)
  have root: "Math_sqrt 225 = 15"
  proof -
    have "sqrt 225 = 15"
      using real_sqrt_abs [of 15] by simp
    then show ?thesis
      using nearest_double_int [of 15] by (simp add: Math_sqrt_def)
  qed
  have "Math_sqrt (nearest_double (pow2 (nearest_double (point_x ?m - 115))
                                   + pow2 (nearest_double (point_y ?m - (100 + 1 / 2 ^ 30))))) = 15"
    by (simp only: dx dy sx sy nearest_double_above_225 root)
  then have removed: "click (Some ?r) success 115 (100 + 1 / 2 ^ 30) 7 [?m] = []"
    by (simp only: click_first_marker(2) [OF x y] order_refl if_True)
  have "\<not> (225 + (1 / 2 ^ 30)\<^sup>2 :: real) \<le> 225"
    by simp
  then have "\<not> sqrt (225 + (1 / 2 ^ 30)\<^sup>2) \<le> 15"
    by (simp only: sqrt_le_15 simp_thms)
  then have far: "15 < sqrt ((100 - 115)\<^sup>2 + (100 - (100 + 1 / 2 ^ 30))\<^sup>2)"
    by (simp add: power2_eq_square)
  from removed far show ?thesis by (rule conjI)
qed


section \<open>The size of the compressed image\<close>

lemma scaled_side:
  fixes s l m :: nat and ratio :: real
  assumes s: "0 < s" "s \<le> l" and l: "l < 2 ^ 31" and m: "0 < m" "m < 2 ^ 31"
    and lo: "real m / real l * (1 - 1 / 2 ^ 53) \<le> ratio"
    and hi: "ratio \<le> real m / real l * (1 + 1 / 2 ^ 53)"
  shows "real s * real m / real l - 1 / 2 ^ 20 \<le> nearest_double (real s * ratio)"
    and "nearest_double (real s * ratio) \<le> real s * real m / real l + 1 / 2 ^ 20"
proof -
  let ?x = "real s * real m / real l"
  let ?p = "real s * ratio"
  have lpos: "0 < real l" using s by simp
  have x0: "0 \<le> ?x" by simp
  have "real s * real m \<le> real l * real m"
    using s(2) by (intro mult_right_mono) simp_all
  then have "?x \<le> real m"
    using lpos by (simp add: pos_divide_le_eq mult.commute)
  also have "real m \<le> 2 ^ 31"
    using m(2) by (metis less_imp_le of_nat_le_iff of_nat_numeral of_nat_power)
  finally have x1: "?x \<le> 2 ^ 31" .
  have "real s * (real m / real l * (1 - 1 / 2 ^ 53)) \<le> ?p"
    using lo by (intro mult_left_mono) simp_all
  then have p_lo: "?x * (1 - 1 / 2 ^ 53) \<le> ?p"
    by (simp add: mult.assoc)
  have "?p \<le> real s * (real m / real l * (1 + 1 / 2 ^ 53))"
    using hi by (intro mult_left_mono) simp_all
  then have p_hi: "?p \<le> ?x * (1 + 1 / 2 ^ 53)"
    by (simp add: mult.assoc)
  have "real l \<le> 2 ^ 31"
    using l by (metis less_imp_le of_nat_le_iff of_nat_numeral of_nat_power)
  then have "1 / 2 ^ 31 \<le> 1 / real l"
    using lpos by (intro divide_left_mono) simp_all
  moreover have "1 / real l \<le> ?x"
  proof -
    have "1 \<le> real s * real m"
      using s(1) m(1) by (metis One_nat_def Suc_leI mult_pos_pos of_nat_1 of_nat_le_iff of_nat_mult)
    then show ?thesis
      using lpos by (intro divide_right_mono) simp_all
  qed
  ultimately have x_lo: "1 / 2 ^ 31 \<le> ?x" by linarith
  have "1 / 2 ^ 31 * (1 - 1 / 2 ^ 53) \<le> ?x * (1 - 1 / 2 ^ 53)"
    using x_lo by (intro mult_right_mono) simp_all
  moreover have "(1::real) / 2 ^ 32 \<le> 1 / 2 ^ 31 * (1 - 1 / 2 ^ 53)"
    by simp
  ultimately have "1 / 2 ^ 32 \<le> ?p"
    using p_lo by linarith
  from nearest_double_rel [OF this]
  have "?p * (1 - 1 / 2 ^ 53) \<le> nearest_double ?p" "nearest_double ?p \<le> ?p * (1 + 1 / 2 ^ 53)" .
  with two_roundings [OF x0 x1 p_lo p_hi]
  show "?x - 1 / 2 ^ 20 \<le> nearest_double ?p" "nearest_double ?p \<le> ?x + 1 / 2 ^ 20"
    by blast+
qed


lemma quotient_normal:
  fixes k m :: nat
  assumes "0 < k" "k < 2 ^ 31" "0 < m"
  shows "1 / 2 ^ 32 \<le> real m / real k"
proof -
  have "real k \<le> 2 ^ 31"
    using assms(2) by (metis less_imp_le of_nat_le_iff of_nat_numeral of_nat_power)
  then have "1 / 2 ^ 31 \<le> 1 / real k"
    using assms(1) by (intro divide_left_mono) simp_all
  moreover have "1 / real k \<le> real m / real k"
    using assms(1,3) by (intro divide_right_mono) simp_all
  moreover have "(1::real) / 2 ^ 32 \<le> 1 / 2 ^ 31" by simp
  ultimately show ?thesis by linarith
qed

lemma ratio_bounds:
  fixes w h m :: nat
  assumes "0 < w" "0 < h" "w < 2 ^ 31" "h < 2 ^ 31" "0 < m"
  defines "ratio \<equiv> min (nearest_double (real m / real w)) (nearest_double (real m / real h))"
  shows "real m / real (max w h) * (1 - 1 / 2 ^ 53) \<le> ratio"
    and "ratio \<le> real m / real (max w h) * (1 + 1 / 2 ^ 53)"
proof -
  note rw = nearest_double_rel [OF quotient_normal [OF assms(1,3,5)]]
  note rh = nearest_double_rel [OF quotient_normal [OF assms(2,4,5)]]
  have u: "(0::real) \<le> 1 - 1 / 2 ^ 53" by simp
  have "real m / real (max w h) \<le> real m / real w"
    using assms(1) by (intro divide_left_mono) simp_all
  then have "real m / real (max w h) * (1 - 1 / 2 ^ 53) \<le> real m / real w * (1 - 1 / 2 ^ 53)"
    using u by (rule mult_right_mono)
  with rw(1) have a: "real m / real (max w h) * (1 - 1 / 2 ^ 53) \<le> nearest_double (real m / real w)"
    by linarith
  have "real m / real (max w h) \<le> real m / real h"
    using assms(2) by (intro divide_left_mono) simp_all
  then have "real m / real (max w h) * (1 - 1 / 2 ^ 53) \<le> real m / real h * (1 - 1 / 2 ^ 53)"
    using u by (rule mult_right_mono)
  with rh(1) have b: "real m / real (max w h) * (1 - 1 / 2 ^ 53) \<le> nearest_double (real m / real h)"
    by linarith
  from a b show "real m / real (max w h) * (1 - 1 / 2 ^ 53) \<le> ratio"
    by (simp add: ratio_def)
  show "ratio \<le> real m / real (max w h) * (1 + 1 / 2 ^ 53)"
  proof (cases "h \<le> w")
    case True
    then have "max w h = w" by simp
    with rw(2) show ?thesis by (simp add: ratio_def min_le_iff_disj)
  next
    case False
    then have "max w h = h" by simp
    with rh(2) show ?thesis by (simp add: ratio_def min_le_iff_disj)
  qed
qed

lemma canvas_size_bounds:
  assumes "x - 1 / 2 ^ 20 \<le> y" "y \<le> x + 1 / 2 ^ 20" "0 \<le> x"
  shows "real (canvas_size y) \<le> x + 1 / 2 ^ 20" "x - 1 - 1 / 2 ^ 20 < real (canvas_size y)"
proof -
  have "(0::real) < 1 / 2 ^ 20" by simp
  show "real (canvas_size y) \<le> x + 1 / 2 ^ 20"
  proof (cases "0 \<le> y")
    case True
    then have "real (canvas_size y) = of_int \<lfloor>y\<rfloor>"
      by (simp add: canvas_size_def)
    also have "\<dots> \<le> y" by simp
    finally show ?thesis using assms(2) by linarith
  next
    case False
    then have "canvas_size y = 0"
      by (simp add: canvas_size_def)
    with assms(3) show ?thesis by simp
  qed
  have "y - 1 < of_int \<lfloor>y\<rfloor>" by linarith
  moreover have "of_int \<lfloor>y\<rfloor> \<le> real (canvas_size y)"
    by (simp add: canvas_size_def)
  ultimately show "x - 1 - 1 / 2 ^ 20 < real (canvas_size y)"
    using assms(1) by linarith
qed

text \<open>
  Claim C6, amended. For an image of \<open>w\<close> by \<open>h\<close> pixels and a \<open>maxWidth\<close> of \<open>m\<close> (all
  positive and below \<open>2 ^ 31\<close>), the canvas that \<open>compressImage\<close> encodes has both
  dimensions at most \<open>m\<close>; each dimension is the exact scaling by the one factor
  \<open>m / max w h = min (m / w) (m / h)\<close>, with its fraction dropped after the double
  arithmetic has rounded it (so it is less than \<open>1 + 2 ^ - 20\<close> away from the exact
  value, which keeps the aspect ratio within rounding); and the longer side becomes
  \<open>m\<close> or \<open>m - 1\<close>. So an image whose longer side is below \<open>m - 1\<close> does not keep its
  dimensions: it is enlarged.
\<close>

theorem scaled_size_fits:
  fixes w h m :: nat
  assumes "0 < w" "0 < h" "w < 2 ^ 31" "h < 2 ^ 31" "0 < m" "m < 2 ^ 31"
  shows "fst (scaled_size w h (real m)) \<le> m \<and> snd (scaled_size w h (real m)) \<le> m
     \<and> m - 1 \<le> max (fst (scaled_size w h (real m))) (snd (scaled_size w h (real m)))
     \<and> \<bar>real (fst (scaled_size w h (real m))) - real w * real m / real (max w h)\<bar> < 1 + 1 / 2 ^ 20
     \<and> \<bar>real (snd (scaled_size w h (real m))) - real h * real m / real (max w h)\<bar> < 1 + 1 / 2 ^ 20
     \<and> (max w h + 1 < m \<longrightarrow> scaled_size w h (real m) \<noteq> (w, h))"
proof -
  define ratio where
    "ratio = min (nearest_double (real m / real w)) (nearest_double (real m / real h))"
  define l where "l = max w h"
  define cw where "cw = canvas_size (nearest_double (real w * ratio))"
  define ch where "ch = canvas_size (nearest_double (real h * ratio))"
  have S: "scaled_size w h (real m) = (cw, ch)"
    by (simp add: scaled_size_def Let_def ratio_def cw_def ch_def)
  have l: "w \<le> l" "h \<le> l" "l < 2 ^ 31" "0 < l"
    using assms by (simp_all add: l_def)
  from ratio_bounds [OF assms(1,2,3,4,5)]
  have r: "real m / real l * (1 - 1 / 2 ^ 53) \<le> ratio" "ratio \<le> real m / real l * (1 + 1 / 2 ^ 53)"
    by (simp_all add: ratio_def l_def)
  note sw = scaled_side [OF assms(1) l(1) l(3) assms(5,6) r]
  note sh = scaled_side [OF assms(2) l(2) l(3) assms(5,6) r]
  have xw: "0 \<le> real w * real m / real l" and xh: "0 \<le> real h * real m / real l"
    by simp_all
  note cwb = canvas_size_bounds [OF sw xw, folded cw_def]
  note chb = canvas_size_bounds [OF sh xh, folded ch_def]
  have xw_le: "real w * real m / real l \<le> real m"
  proof -
    have "real w * real m \<le> real l * real m"
      using l(1) by (intro mult_right_mono) simp_all
    then show ?thesis using l(4) by (simp add: pos_divide_le_eq mult.commute)
  qed
  have xh_le: "real h * real m / real l \<le> real m"
  proof -
    have "real h * real m \<le> real l * real m"
      using l(2) by (intro mult_right_mono) simp_all
    then show ?thesis using l(4) by (simp add: pos_divide_le_eq mult.commute)
  qed
  have small: "(1::real) / 2 ^ 20 < 1" by simp
  have "real cw < real m + 1" using cwb(1) xw_le small by linarith
  then have cw_le: "cw \<le> m" by linarith
  have "real ch < real m + 1" using chb(1) xh_le small by linarith
  then have ch_le: "ch \<le> m" by linarith
  have long: "m - 1 \<le> max cw ch"
  proof (cases "h \<le> w")
    case True
    then have "l = w" by (simp add: l_def)
    with assms(1) have "real w * real m / real l = real m" by simp
    with cwb(2) small have "real m - 2 < real cw" by linarith
    then have "m - 1 \<le> cw" by linarith
    then show ?thesis by simp
  next
    case False
    then have "l = h" by (simp add: l_def)
    with assms(2) have "real h * real m / real l = real m" by simp
    with chb(2) small have "real m - 2 < real ch" by linarith
    then have "m - 1 \<le> ch" by linarith
    then show ?thesis by simp
  qed
  have aw: "\<bar>real cw - real w * real m / real l\<bar> < 1 + 1 / 2 ^ 20"
    using cwb small by linarith
  have ah: "\<bar>real ch - real h * real m / real l\<bar> < 1 + 1 / 2 ^ 20"
    using chb small by linarith
  have grow: "(cw, ch) \<noteq> (w, h)" if "max w h + 1 < m"
  proof
    assume "(cw, ch) = (w, h)"
    then have "max cw ch = max w h" by simp
    with long that show False by linarith
  qed
  from cw_le ch_le long aw ah grow show ?thesis
    by (simp add: S l_def)
qed

text \<open>With the default 1920, a 1000 by 800 image does not keep its dimensions.\<close>

theorem scaled_size_fits_witness:
  "fst (scaled_size 1000 800 1920) \<le> 1920 \<and> snd (scaled_size 1000 800 1920) \<le> 1920
   \<and> 1919 \<le> max (fst (scaled_size 1000 800 1920)) (snd (scaled_size 1000 800 1920))
   \<and> scaled_size 1000 800 1920 \<noteq> (1000, 800)"
  using scaled_size_fits [of 1000 800 1920] by simp

text \<open>
  As the claim states it, an image whose dimensions are already within \<open>maxWidth\<close> is
  left unchanged. A 960 by 960 image with the default 1920: both quotients are exactly
  2, the products exactly 1920, the canvas is 1920 by 1920, and \<open>compressImage\<close> hands
  the encoder that canvas.
\<close>

theorem compressImage_enlarges:
  "scaled_size 960 960 1920 = (1920, 1920)
   \<and> fst (compressImage small_image example_jpeg 1920 0.8 initial_world)
       = Inr \<lparr>file_name = ''court.jpg'', file_type = ''image/jpeg'', file_size = 1920 * 1920\<rparr>"
proof -
  have two: "nearest_double 2 = 2"
  proof -
    have "nearest_double 2 = of_int 4503599627370496 * 2 powr of_int (1 - 52)"
    proof (rule nearest_double_eval)
      show "round_half_even (2 / 2 powr of_int (1 - 52)) = 4503599627370496"
        by (simp add: round_half_even_def Let_def powr_minus)
    qed (simp_all add: powr_minus)
    then show ?thesis by (simp add: powr_minus)
  qed
  have full: "nearest_double 1920 = 1920"
  proof -
    have "nearest_double 1920 = of_int 8444249301319680 * 2 powr of_int (10 - 52)"
    proof (rule nearest_double_eval)
      show "round_half_even (1920 / 2 powr of_int (10 - 52)) = 8444249301319680"
        by (simp add: round_half_even_def Let_def powr_minus)
    qed (simp_all add: powr_minus)
    then show ?thesis by (simp add: powr_minus)
  qed
  have size: "scaled_size 960 960 1920 = (1920, 1920)"
    by (simp add: scaled_size_def canvas_size_def two full)
  have "fst (compressImage small_image example_jpeg 1920 0.8 initial_world)
       = Inr \<lparr>file_name = ''court.jpg'', file_type = ''image/jpeg'', file_size = 1920 * 1920\<rparr>"
    by (simp add: compressImage_def createObjectURL_def small_image_def example_env_def
          example_jpeg_def Let_def size)
  with size show ?thesis by simp
qed

section \<open>The classification of the remote service's failures\<close>

lemma null_read_is_unknown:
  "client_catch (TypeError (cannot_read ''null'' ''error''))
     = ApiError ''Failed to analyze image. Please try again later.'' (Str ''UNKNOWN_ERROR'') Undefined"
  "client_catch (TypeError (cannot_read ''undefined'' ''error''))
     = ApiError ''Failed to analyze image. Please try again later.'' (Str ''UNKNOWN_ERROR'') Undefined"
  by (simp_all add: client_catch_def cannot_read_def)

lemma get_present:
  "v \<noteq> Null \<Longrightarrow> v \<noteq> Undefined \<Longrightarrow> get v key = Inr (opt_get v key)"
  by (cases v) simp_all

lemma client_catch_ApiError: "client_catch (ApiError m c d) = ApiError m c d"
  by (simp add: client_catch_def)

lemma answered:
  assumes "apiKey = Some k" "k \<noteq> []" "k \<noteq> ''your_gemini_api_key_here''"
    and "\<And>r. fetch r = Inr response"
  shows "analyzeImageWithGemini num apiKey fetch base64Image mimeType customPrompt =
      (case handle_response num response of Inl e \<Rightarrow> Inl (client_catch e) | Inr t \<Rightarrow> Inr t)"
  using assms by (simp add: analyzeImageWithGemini_def or_default_def Let_def)

text \<open>The four statuses with a code of their own, whatever the body.\<close>

lemma fixed_status_errors:
  assumes "apiKey = Some k" "k \<noteq> []" "k \<noteq> ''your_gemini_api_key_here''"
    and "\<And>r. fetch r = Inr response"
    and "resp_status response \<in> {400, 401, 403, 429}"
  shows "analyzeImageWithGemini num apiKey fetch base64Image mimeType customPrompt =
     (let s = resp_status response
      in if s = 400 then
           Inl (ApiError ''Invalid request. Please check your image format and try again.''
                  (Str ''INVALID_REQUEST'') Undefined)
         else if s = 401 then
           Inl (ApiError ''Invalid API key. Please check your Gemini API key configuration.''
                  (Str ''INVALID_API_KEY'') Undefined)
         else if s = 403 then
           Inl (ApiError ''API access forbidden. Please check your API key permissions.''
                  (Str ''FORBIDDEN'') Undefined)
         else
           Inl (ApiError ''Rate limit exceeded. Please wait a moment and try again.''
                  (Str ''RATE_LIMIT'') Undefined))"
  using assms(5)
  by (auto simp: answered [OF assms(1-4)] handle_response_def response_ok_def Let_def
        client_catch_ApiError)

text \<open>
  Any other failed status, when the body is no JSON or a JSON value other than \<open>null\<close>:
  the error is built from the body's \<open>error\<close> property, and is the \<open>ApiError\<close> with the
  service's message and code whenever the message converts to a string.
\<close>

lemma other_status_error:
  assumes "apiKey = Some k" "k \<noteq> []" "k \<noteq> ''your_gemini_api_key_here''"
    and "\<And>r. fetch r = Inr response"
    and "\<not> response_ok response" "resp_status response \<notin> {400, 401, 403, 429}"
    and "errorData = (case resp_json response of Inl e \<Rightarrow> Obj [] | Inr v \<Rightarrow> v)"
    and "errorData \<noteq> Null" "errorData \<noteq> Undefined"
  shows "analyzeImageWithGemini num apiKey fetch base64Image mimeType customPrompt =
     Inl (client_catch (new_ApiError num
       (js_or (opt_get (opt_get errorData ''error'') ''message'')
          (Str (''API request failed with status '' @ decimal (resp_status response))))
       (js_or (opt_get (opt_get errorData ''error'') ''code'') (Str ''API_ERROR''))
       (opt_get (opt_get errorData ''error'') ''details'')))"
  using assms(5-9) get_present [of errorData "''error''"]
  by (simp add: answered [OF assms(1-4)] handle_response_def Let_def)

text \<open>
  Claim C4 says that every failed status other than 400, 401, 403 and 429 yields an error
  with the service's message and code when available, and the generic API_ERROR
  otherwise. The code does so when the body of a 500 is no JSON, or is the empty object:
  the error is ``API request failed with status 500'' with the code API_ERROR. When the
  body is the JSON value \<open>null\<close>, \<open>errorData.error\<close> reads a property of \<open>null\<close>; the
  \<open>TypeError\<close> falls to the catch of the client, and the error has the code
  UNKNOWN_ERROR. So does a body whose message is an object with a property \<open>toString\<close>,
  which the constructor of the error cannot convert to a string.
\<close>

theorem null_body_is_unknown_error:
  "analyzeImageWithGemini (\<lambda>n. decimal (nat \<lfloor>n\<rfloor>)) (Some ''AIzaSyExampleKey'')
     (\<lambda>r. Inr \<lparr>resp_status = 500, resp_json = Inr Null\<rparr>)
     ''iVBORw0KGgo='' ''image/png'' None
   = Inl (ApiError ''Failed to analyze image. Please try again later.''
            (Str ''UNKNOWN_ERROR'') Undefined)
   \<and> analyzeImageWithGemini (\<lambda>n. decimal (nat \<lfloor>n\<rfloor>)) (Some ''AIzaSyExampleKey'')
     (\<lambda>r. Inr \<lparr>resp_status = 500,
                resp_json = Inr (Obj [(''error'',
                  Obj [(''message'', Obj [(''toString'', Num 1)])])])\<rparr>)
     ''iVBORw0KGgo='' ''image/png'' None
   = Inl (ApiError ''Failed to analyze image. Please try again later.''
            (Str ''UNKNOWN_ERROR'') Undefined)
   \<and> analyzeImageWithGemini (\<lambda>n. decimal (nat \<lfloor>n\<rfloor>)) (Some ''AIzaSyExampleKey'')
     (\<lambda>r. Inr \<lparr>resp_status = 500, resp_json = Inr (Obj [])\<rparr>)
     ''iVBORw0KGgo='' ''image/png'' None
   = Inl (ApiError ''API request failed with status 500'' (Str ''API_ERROR'') Undefined)
   \<and> analyzeImageWithGemini (\<lambda>n. decimal (nat \<lfloor>n\<rfloor>)) (Some ''AIzaSyExampleKey'')
     (\<lambda>r. Inr \<lparr>resp_status = 500, resp_json = Inl (OtherError ''Unexpected token <'')\<rparr>)
     ''iVBORw0KGgo='' ''image/png'' None
   = Inl (ApiError ''API request failed with status 500'' (Str ''API_ERROR'') Undefined)"
proof -
  have d: "decimal 500 = ''500''"
    by (simp add: decimal.simps digit_char_def)
  have convert: "client_catch (TypeError ''Cannot convert object to primitive value'')
      = ApiError ''Failed to analyze image. Please try again later.'' (Str ''UNKNOWN_ERROR'') Undefined"
    by (simp add: client_catch_def)
  show ?thesis
    by (simp add: analyzeImageWithGemini_def or_default_def handle_response_def response_ok_def
        Let_def null_read_is_unknown new_ApiError_def js_or_def d convert client_catch_ApiError)
qed


section \<open>The confidence score\<close>

lemma nearest_double_02: "nearest_double (2 / 10) = 3602879701896397 / 2 ^ 54"
proof -
  have "nearest_double (2 / 10) = of_int 7205759403792794 * 2 powr of_int (- 3 - 52)"
  proof (rule nearest_double_eval)
    show "round_half_even (2 / 10 / 2 powr of_int (- 3 - 52)) = 7205759403792794"
      by (simp add: round_half_even_def Let_def powr_minus)
  qed (simp_all add: powr_minus)
  also have "\<dots> = 3602879701896397 / 2 ^ 54"
    by (simp add: powr_minus)
  finally show ?thesis .
qed

lemma nearest_double_08: "nearest_double (8 / 10) = 3602879701896397 / 2 ^ 52"
proof -
  have "nearest_double (8 / 10) = of_int 7205759403792794 * 2 powr of_int (- 1 - 52)"
  proof (rule nearest_double_eval)
    show "round_half_even (8 / 10 / 2 powr of_int (- 1 - 52)) = 7205759403792794"
      by (simp add: round_half_even_def Let_def powr_minus)
  qed (simp_all add: powr_minus)
  also have "\<dots> = 3602879701896397 / 2 ^ 52"
    by (simp add: powr_minus)
  finally show ?thesis .
qed


lemma nearest_double_consts:
  "nearest_double (1 / 5) = 3602879701896397 / 2 ^ 54" "nearest_double (4 / 5) = 3602879701896397 / 2 ^ 52"
  using nearest_double_02 nearest_double_08 by simp_all

lemma power_as_powr: "0 \<le> k \<Longrightarrow> (2::real) ^ nat k = 2 powr of_int k"
  by (simp add: powr_real_of_int)

lemma double_exponent_small:
  assumes "0 < x" "x < 1 / 4"
  shows "double_exponent x \<le> - 3" "- 1022 \<le> double_exponent x"
proof -
  have "log 2 x < - 2"
    using assms by (simp add: log_less_iff powr_minus)
  then have "\<lfloor>log 2 x\<rfloor> \<le> - 3"
    by (simp add: floor_le_iff)
  with assms(1) show "double_exponent x \<le> - 3"
    by (simp add: double_exponent_def)
  show "- 1022 \<le> double_exponent x"
    by (simp add: double_exponent_def)
qed

lemma nearest_double_product_bounds:
  assumes "0 \<le> r" "r < 1"
  shows "0 \<le> nearest_double (r * nearest_double (2 / 10)) \<and> nearest_double (r * nearest_double (2 / 10)) \<le> 3602879701896397 / 2 ^ 54"
proof (cases "r = 0")
  case True
  then show ?thesis by (simp add: nearest_double_def)
next
  case False
  define x where "x = r * (3602879701896397 / 2 ^ 54)"
  define e where "e = double_exponent x"
  have x: "0 < x" "x < 3602879701896397 / 2 ^ 54"
    using assms False by (simp_all add: x_def)
  then have "x < 1 / 4" by simp
  with x(1) have e: "e \<le> - 3" "- 1022 \<le> e"
    unfolding e_def by (rule double_exponent_small)+
  define b :: int where "b = 7205759403792794 * 2 ^ nat (- 3 - e)"
  have "(2::real) ^ nat (- 3 - e) = 2 powr of_int (- 3 - e)"
    using e by (intro power_as_powr) simp
  then have "real_of_int b * double_quantum x
      = 7205759403792794 * (2 powr of_int (- 3 - e) * 2 powr of_int (e - 52))"
    by (simp add: b_def double_quantum_def e_def [symmetric])
  also have "2 powr of_int (- 3 - e) * 2 powr of_int (e - 52) = (2 powr (- 55) :: real)"
    by (simp add: powr_add [symmetric])
  finally have top: "real_of_int b * double_quantum x = 3602879701896397 / 2 ^ 54"
    by (simp add: powr_minus)
  have "of_int 0 * double_quantum x \<le> nearest_double x \<and> nearest_double x \<le> of_int b * double_quantum x"
    using x top by (intro nearest_double_bounds) simp_all
  with top show ?thesis
    by (simp add: nearest_double_consts x_def)
qed

lemma nearest_double_sum_bounds:
  assumes "3602879701896397 / 2 ^ 52 \<le> s" "s \<le> 3602879701896397 / 2 ^ 52 + 3602879701896397 / 2 ^ 54"
  shows "3602879701896397 / 2 ^ 52 \<le> nearest_double s \<and> nearest_double s \<le> 1"
proof (cases "s < 1")
  case True
  have e: "double_exponent s = - 1"
    using assms(1) True by (intro double_exponent_eq) (simp_all add: powr_minus)
  have q: "double_quantum s = 1 / 2 ^ 53"
    by (simp add: double_quantum_def e powr_minus inverse_eq_divide)
  have "of_int 7205759403792794 * double_quantum s \<le> nearest_double s \<and> nearest_double s \<le> of_int 9007199254740992 * double_quantum s"
    using assms(1) True by (intro nearest_double_bounds) (simp_all add: q)
  then show ?thesis by (simp add: q)
next
  case False
  have "round_half_even (s / 2 powr of_int (0 - 52)) = 4503599627370496"
    using assms(2) False by (intro round_half_even_down) (simp_all add: powr_minus field_simps)
  then have "nearest_double s = of_int 4503599627370496 * 2 powr of_int (0 - 52)"
    using assms(2) False by (intro nearest_double_eval) simp_all
  then show ?thesis by (simp add: powr_minus)
qed


lemma confidence_formula_bounds:
  assumes "0 \<le> r" "r < 1"
  shows "8 / 10 \<le> nearest_double (nearest_double (r * nearest_double (2 / 10)) + nearest_double (8 / 10))
     \<and> nearest_double (nearest_double (r * nearest_double (2 / 10)) + nearest_double (8 / 10)) \<le> 1"
proof -
  from nearest_double_product_bounds [OF assms]
  have "3602879701896397 / 2 ^ 52
          \<le> nearest_double (r * nearest_double (2 / 10)) + nearest_double (8 / 10)"
    "nearest_double (r * nearest_double (2 / 10)) + nearest_double (8 / 10)
          \<le> 3602879701896397 / 2 ^ 52 + 3602879701896397 / 2 ^ 54"
    by (simp_all add: nearest_double_consts)
  then have "3602879701896397 / 2 ^ 52
          \<le> nearest_double (nearest_double (r * nearest_double (2 / 10)) + nearest_double (8 / 10))
     \<and> nearest_double (nearest_double (r * nearest_double (2 / 10)) + nearest_double (8 / 10)) \<le> 1"
    by (rule nearest_double_sum_bounds)
  then show ?thesis by simp
qed

lemma confidence_formula_top:
  "nearest_double (nearest_double ((1 - 1 / 2 ^ 52) * nearest_double (2 / 10)) + nearest_double (8 / 10)) = 1"
proof -
  have "nearest_double ((1 - 1 / 2 ^ 52) * (3602879701896397 / 2 ^ 54))
      = of_int 7205759403792792 * 2 powr of_int (- 3 - 52)"
  proof (rule nearest_double_eval)
    show "round_half_even ((1 - 1 / 2 ^ 52) * (3602879701896397 / 2 ^ 54) / 2 powr of_int (- 3 - 52))
        = 7205759403792792"
      by (simp add: round_half_even_def Let_def powr_minus)
  qed (simp_all add: powr_minus)
  then have p: "nearest_double ((1 - 1 / 2 ^ 52) * nearest_double (2 / 10)) = 7205759403792792 / 2 ^ 55"
    by (simp only: nearest_double_02) (simp add: powr_minus)
  have "nearest_double (7205759403792792 / 2 ^ 55 + 3602879701896397 / 2 ^ 52)
      = of_int 4503599627370496 * 2 powr of_int (0 - 52)"
  proof (rule nearest_double_eval)
    show "round_half_even ((7205759403792792 / 2 ^ 55 + 3602879701896397 / 2 ^ 52) / 2 powr of_int (0 - 52))
        = 4503599627370496"
      by (simp add: round_half_even_def Let_def powr_minus)
  qed (simp_all add: powr_minus)
  then show ?thesis
    by (simp only: p nearest_double_08) (simp add: powr_minus)
qed

lemma assemble_confidence:
  "assemble env file v w = (Inr result, w') \<Longrightarrow>
     confidence result =
       nearest_double (nearest_double (env_random env * nearest_double (2 / 10)) + nearest_double (8 / 10))"
  by (auto simp: assemble_def Let_def split: prod.splits sum.splits)

lemma try_confidence:
  "analyzeImage_try env file customPrompt w = (Inr result, w') \<Longrightarrow>
     confidence result =
       nearest_double (nearest_double (env_random env * nearest_double (2 / 10)) + nearest_double (8 / 10))"
  by (auto simp: analyzeImage_try_def Let_def split: if_splits prod.splits sum.splits
        dest: assemble_confidence)

lemma run_confidence:
  assumes "fst (analyzeImage env file customPrompt w) = Some result"
  shows "confidence result =
       nearest_double (nearest_double (env_random env * nearest_double (2 / 10)) + nearest_double (8 / 10))"
    and "results (snd (analyzeImage env file customPrompt w)) = result # results w"
proof -
  have "confidence result =
       nearest_double (nearest_double (env_random env * nearest_double (2 / 10)) + nearest_double (8 / 10))
     \<and> results (snd (analyzeImage env file customPrompt w)) = result # results w"
  proof (cases rule: run_cases [of env "file" customPrompt w])
    case (failed err w1)
    with assms show ?thesis by simp
  next
    case (succeeded result' w1)
    with assms have "result' = result" by simp
    with succeeded try_confidence [OF succeeded(1)] try_results [OF succeeded(1)]
    show ?thesis by simp
  qed
  then show "confidence result =
       nearest_double (nearest_double (env_random env * nearest_double (2 / 10)) + nearest_double (8 / 10))"
    and "results (snd (analyzeImage env file customPrompt w)) = result # results w"
    by simp_all
qed

text \<open>
  Claim C10, amended. The result of a successful run has the confidence
  \<open>r * 0.2 + 0.8\<close> computed in double arithmetic, where \<open>r\<close> is the value that
  \<open>Math.random()\<close> returned in the run; for \<open>r\<close> in \<open>[0, 1)\<close> it lies in the closed
  interval from 0.8 to 1.0. It is a function of \<open>r\<close> alone: any other successful run,
  on any file, with any prompt and any answer of the service, that draws the same \<open>r\<close>
  has the same confidence.
\<close>

theorem confidence_range:
  assumes "fst (analyzeImage env file customPrompt w) = Some result"
    and "0 \<le> env_random env" "env_random env < 1"
  shows "confidence result =
           nearest_double (nearest_double (env_random env * nearest_double 0.2) + nearest_double 0.8)
     \<and> 0.8 \<le> confidence result \<and> confidence result \<le> 1
     \<and> (\<forall>env' file' customPrompt' w' result'.
           fst (analyzeImage env' file' customPrompt' w') = Some result'
           \<and> env_random env' = env_random env
           \<longrightarrow> confidence result' = confidence result)"
proof -
  from run_confidence(1) [OF assms(1)] confidence_formula_bounds [OF assms(2,3)]
  have "confidence result =
           nearest_double (nearest_double (env_random env * nearest_double 0.2) + nearest_double 0.8)
     \<and> 0.8 \<le> confidence result \<and> confidence result \<le> 1"
    by simp
  moreover have "confidence result' = confidence result"
    if "fst (analyzeImage env' file' customPrompt' w') = Some result'"
      "env_random env' = env_random env"
    for env' file' customPrompt' w' result'
    using run_confidence(1) [OF that(1)] run_confidence(1) [OF assms(1)] that(2) by simp
  ultimately show ?thesis by blast
qed

text \<open>
  The example run draws 1/2; its one result has the confidence of the formula, between
  0.8 and 1.
\<close>

theorem confidence_range_witness:
  "map confidence (results (snd (analyzeImage example_env example_png None initial_world)))
     = [nearest_double (nearest_double (1 / 2 * nearest_double 0.2) + nearest_double 0.8)]
   \<and> 0.8 \<le> nearest_double (nearest_double (1 / 2 * nearest_double 0.2) + nearest_double 0.8)
   \<and> nearest_double (nearest_double (1 / 2 * nearest_double 0.2) + nearest_double 0.8) \<le> 1"
proof -
  have "fst (analyzeImage example_env example_png None initial_world) \<noteq> None"
    by (simp add: run_defs)
  then obtain result where
    run: "fst (analyzeImage example_env example_png None initial_world) = Some result"
    by blast
  have r: "env_random example_env = 1 / 2" "0 \<le> env_random example_env" "env_random example_env < 1"
    by (simp_all add: example_env_def)
  have "results (snd (analyzeImage example_env example_png None initial_world)) = [result]"
    using run_confidence(2) [OF run] by (simp add: initial_world_def)
  with confidence_range [OF run r(2,3)] r(1) show ?thesis
    by simp
qed

text \<open>
  As the claim states it, the confidence is always below 1.0. When \<open>Math.random()\<close>
  returns \<open>1 - 2 ^ - 52\<close>, the product rounds to \<open>7205759403792792 / 2 ^ 55\<close>, the sum is
  exactly 1, and the confidence of the result is 1.0.
\<close>

theorem confidence_reaches_one:
  "map confidence (results (snd (analyzeImage random_near_one example_png None initial_world))) = [1]
   \<and> 0 \<le> env_random random_near_one \<and> env_random random_near_one < 1"
proof -
  have "fst (analyzeImage random_near_one example_png None initial_world) \<noteq> None"
    by (simp add: run_defs)
  then obtain result where
    run: "fst (analyzeImage random_near_one example_png None initial_world) = Some result"
    by blast
  have r: "env_random random_near_one = 1 - 1 / 2 ^ 52"
    by (simp add: random_near_one_def example_env_def)
  have "confidence result = 1"
    using run_confidence(1) [OF run] confidence_formula_top by (simp only: r)
  moreover have "results (snd (analyzeImage random_near_one example_png None initial_world)) = [result]"
    using run_confidence(2) [OF run] by (simp add: initial_world_def)
  ultimately show ?thesis
    by (simp add: r)
qed

end
